theory Spec2Isabelle
  imports Main "HOL-Library.AList" "HOL-Library.Sublist" "HOL-Library.Word"
begin

section \<open>JavaScript values\<close>

text \<open>
  The consumer works on what \<^verbatim>\<open>JSON.parse\<close> returns and on the results of property
  reads. Arrays and objects are heap objects: they carry the address that \<^verbatim>\<open>===\<close>
  compares. An object is the list of its own properties (distinct names, in insertion
  order). Strings are ASCII. A number \<open>JNum n\<close> is the integer \<open>sint n\<close>, from \<open>- 2 ^ 53\<close> to
  \<open>2 ^ 53 - 1\<close>: every such integer is a Number, held exactly and printed as its decimal
  digits. Fractions and numbers beyond that range are not values of this type.
\<close>

datatype jsval =
    JUndefined
  | JNull
  | JBool bool
  | JNum "54 word"
  | JStr string
  | JArr nat "jsval list"
  | JObj nat "(string \<times> jsval) list"

text \<open>ToBoolean, as used by \<^verbatim>\<open>&&\<close>, \<^verbatim>\<open>||\<close>, \<^verbatim>\<open>!!\<close> and \<^verbatim>\<open>if\<close>.\<close>

fun truthy :: "jsval \<Rightarrow> bool" where
  "truthy JUndefined = False"
| "truthy JNull = False"
| "truthy (JBool b) = b"
| "truthy (JNum n) = (n \<noteq> 0)"
| "truthy (JStr s) = (s \<noteq> [])"
| "truthy (JArr a xs) = True"
| "truthy (JObj a fs) = True"

text \<open>\<^verbatim>\<open>a || b\<close>\<close>

definition js_or :: "jsval \<Rightarrow> jsval \<Rightarrow> jsval" where
  "js_or a b = (if truthy a then a else b)"

text \<open>\<^verbatim>\<open>a === b\<close>: primitives by value, arrays and objects by address.\<close>

fun strictEquals :: "jsval \<Rightarrow> jsval \<Rightarrow> bool" where
  "strictEquals JUndefined JUndefined = True"
| "strictEquals JNull JNull = True"
| "strictEquals (JBool a) (JBool b) = (a = b)"
| "strictEquals (JNum a) (JNum b) = (a = b)"
| "strictEquals (JStr a) (JStr b) = (a = b)"
| "strictEquals (JArr a xs) (JArr b ys) = (a = b)"
| "strictEquals (JObj a fs) (JObj b gs) = (a = b)"
| "strictEquals _ _ = False"

text \<open>
  \<^verbatim>\<open>v.name\<close> on a receiver that is neither \<^verbatim>\<open>null\<close> nor \<^verbatim>\<open>undefined\<close> (there the read
  throws a TypeError, which every caller below handles before calling \<open>getProp\<close>). None of
  the names the consumer reads is a property of a built-in prototype, so every receiver
  other than an object yields \<^verbatim>\<open>undefined\<close>.
\<close>

fun getProp :: "jsval \<Rightarrow> string \<Rightarrow> jsval" where
  "getProp (JObj a fs) name = (case map_of fs name of Some v \<Rightarrow> v | None \<Rightarrow> JUndefined)"
| "getProp _ name = JUndefined"

fun isNullish :: "jsval \<Rightarrow> bool" where
  "isNullish JUndefined = True"
| "isNullish JNull = True"
| "isNullish _ = False"

subsection \<open>Strings\<close>

definition lowerChar :: "char \<Rightarrow> char" where
  "lowerChar c =
     (case map_of (zip ''ABCDEFGHIJKLMNOPQRSTUVWXYZ'' ''abcdefghijklmnopqrstuvwxyz'') c of
        Some l \<Rightarrow> l
      | None \<Rightarrow> c)"

definition toLowerCase :: "string \<Rightarrow> string" where
  "toLowerCase s = map lowerChar s"

text \<open>\<^verbatim>\<open>String.prototype.includes\<close>: \<open>pat\<close> occurs in \<open>s\<close> as a contiguous substring.\<close>

fun strIncludes :: "string \<Rightarrow> string \<Rightarrow> bool" where
  "strIncludes [] pat = (pat = [])"
| "strIncludes (c # cs) pat = (prefix pat (c # cs) \<or> strIncludes cs pat)"

fun digits :: "nat \<Rightarrow> string" where
  "digits n = (if n < 10 then [''0123456789'' ! n] else digits (n div 10) @ [''0123456789'' ! (n mod 10)])"

definition numberToString :: "int \<Rightarrow> string" where
  "numberToString n = (if n < 0 then CHR ''-'' # digits (nat (- n)) else digits (nat n))"

text \<open>
  ToString, as a template literal applies it; \<open>None\<close> when it throws a TypeError. An object
  with an own property \<^verbatim>\<open>toString\<close> throws: the property shadows \<^verbatim>\<open>Object.prototype.toString\<close>,
  no value that \<^verbatim>\<open>JSON.parse\<close> returns is callable, and \<^verbatim>\<open>valueOf\<close> gives no primitive. Every
  other object prints as \<^verbatim>\<open>[object Object]\<close>. An array joins its elements with commas,
  \<^verbatim>\<open>null\<close> as the empty string, and throws when an element does.
\<close>

fun toString :: "jsval \<Rightarrow> string option" and joinElems :: "jsval list \<Rightarrow> string option" where
  "toString JUndefined = Some ''undefined''"
| "toString JNull = Some ''null''"
| "toString (JBool b) = Some (if b then ''true'' else ''false'')"
| "toString (JNum n) = Some (numberToString (sint n))"
| "toString (JStr s) = Some s"
| "toString (JArr a xs) = joinElems xs"
| "toString (JObj a fs) =
     (if map_of fs ''toString'' = None then Some ''[object Object]'' else None)"
| "joinElems [] = Some []"
| "joinElems [x] = (if isNullish x then Some [] else toString x)"
| "joinElems (x # y # ys) =
     (case (if isNullish x then Some [] else toString x) of
        None \<Rightarrow> None
      | Some s \<Rightarrow>
          (case joinElems (y # ys) of
             None \<Rightarrow> None
           | Some r \<Rightarrow> Some (s @ '','' @ r)))"

text \<open>
  A method call \<^verbatim>\<open>v.toLowerCase()\<close> on a value that is not nullish: only strings have the
  method, on anything else the call throws a TypeError (\<open>None\<close>).
\<close>

fun callToLowerCase :: "jsval \<Rightarrow> string option" where
  "callToLowerCase (JStr s) = Some (toLowerCase s)"
| "callToLowerCase _ = None"

text \<open>
  \<^verbatim>\<open>v.includes(pat)\<close> on a truthy value: substring search on a string, membership on an
  array, a TypeError (\<open>None\<close>) on a number, a boolean or an object.
\<close>

fun callIncludes :: "jsval \<Rightarrow> string \<Rightarrow> bool option" where
  "callIncludes (JStr s) pat = Some (strIncludes s pat)"
| "callIncludes (JArr a xs) pat = Some (JStr pat \<in> set xs)"
| "callIncludes _ pat = None"

section \<open>Messages, effects and the consumer's state\<close>

text \<open>
  A \<^verbatim>\<open>Buffer\<close> is its text together with what \<^verbatim>\<open>JSON.parse\<close> does on that text: it throws
  a SyntaxError with a message (\<open>Inl\<close>) or returns a value (\<open>Inr\<close>).
\<close>

datatype buffer = Buffer string "string + jsval"

fun bufferText :: "buffer \<Rightarrow> string" where
  "bufferText (Buffer t r) = t"

fun jsonParse :: "buffer \<Rightarrow> string + jsval" where
  "jsonParse (Buffer t r) = r"

record message =
  m_key :: "buffer option"
  m_value :: "buffer option"
  m_partition :: "54 word"
  m_offset :: "54 word"

type_synonym meta = "(string \<times> jsval) list"

text \<open>
  What a call does to its collaborators, in the order of the calls. \<open>LoggerCDCEvent t meta\<close>
  is \<^verbatim>\<open>logger.info('CDC Event', {timestamp: new Date().toISOString(), ...})\<close> at the instant
  \<open>t\<close>, with the remaining fields in \<open>meta\<close>, in source order.
\<close>

datatype effect =
    CdcEventsCounterInc jsval string
  | CdcProcessingDuration jsval jsval
  | KafkaMessagesTotalInc
  | KafkaErrorsTotalInc
  | LoggerCDCEvent int meta
  | LoggerInfo string meta
  | LoggerInfoValue string jsval
  | LoggerWarn string meta
  | LoggerError string

text \<open>The value of \<^verbatim>\<open>recentDeletes\<close>: \<^verbatim>\<open>{ commitTs, timestamp, data }\<close>.\<close>

record deleteInfo =
  commitTs :: jsval
  timestamp :: int
  data :: jsval

text \<open>
  A callback given to \<^verbatim>\<open>setTimeout(..., 500)\<close> and not run yet: the instant from which it
  may run and the variables its closure captured.
\<close>

record finalizeTask =
  t_due :: int
  t_deleteKey :: string
  t_commitTs :: jsval
  t_tableName :: jsval
  t_payload :: jsval
  t_offset :: "54 word"
  t_messageKey :: jsval

text \<open>
  \<^verbatim>\<open>recentDeletes\<close> is a \<^verbatim>\<open>Map\<close>: \<open>AList.update\<close> is its \<^verbatim>\<open>set\<close> (in place for a key that is
  there, at the end otherwise), \<open>AList.delete\<close> its \<^verbatim>\<open>delete\<close>, \<open>map_of\<close> its \<^verbatim>\<open>get\<close>.
\<close>

record consumer =
  recentDeletes :: "(string \<times> deleteInfo) list"
  timeouts :: "finalizeTask list"
  sweepDue :: int

definition correlationWindowMs :: int where "correlationWindowMs = 500"
definition sweepIntervalMs :: int where "sweepIntervalMs = 30000"
definition stalenessMs :: int where "stalenessMs = 5000"

text \<open>The constructor, run at the instant \<open>now\<close>: an empty map and the sweep's interval.\<close>

definition constructor :: "int \<Rightarrow> consumer" where
  "constructor now = \<lparr> recentDeletes = [], timeouts = [], sweepDue = now + sweepIntervalMs \<rparr>"

section \<open>The split-update consumer (src/unnamed/part\_001)\<close>

definition extractRecordId :: "jsval \<Rightarrow> jsval" where
  "extractRecordId d =
     (if truthy d \<and> getProp d ''id'' \<noteq> JUndefined then getProp d ''id''
      else if truthy d \<and> truthy (getProp d ''username'') then getProp d ''username''
      else if truthy d \<and> truthy (getProp d ''email'') then getProp d ''email''
      else JNull)"

text \<open>
  Lines 160-173: the triple (messageKey, tableName, rowId). A key that does not parse, or
  parses to \<^verbatim>\<open>null\<close> (the read of \<^verbatim>\<open>.tbl\<close> throws), is kept as its text.
\<close>

definition parseKey :: "message \<Rightarrow> jsval \<times> jsval \<times> jsval" where
  "parseKey message =
     (case m_key message of
        None \<Rightarrow> (JNull, JStr ''unknown'', JNull)
      | Some b \<Rightarrow>
          if bufferText b = [] then (JNull, JStr ''unknown'', JNull)
          else (case jsonParse b of
                  Inl e \<Rightarrow> (JStr (bufferText b), JStr ''unknown'', JNull)
                | Inr k \<Rightarrow>
                    if isNullish k then (JStr (bufferText b), JStr ''unknown'', JNull)
                    else (k,
                          js_or (getProp k ''tbl'') (js_or (getProp k ''table'') (JStr ''unknown'')),
                          js_or (getProp k ''rid'') (js_or (getProp k ''rowid'') JNull))))"

text \<open>
  Lines 179-187, the inner \<^verbatim>\<open>try\<close>: \<open>Inl\<close> is the message of what was thrown, by
  \<^verbatim>\<open>message.value.toString()\<close> on a null value, by \<^verbatim>\<open>JSON.parse\<close>, or by \<^verbatim>\<open>payload.schema\<close>
  on a payload that is \<^verbatim>\<open>null\<close>.
\<close>

definition parseValue :: "message \<Rightarrow> string + jsval" where
  "parseValue message =
     (case m_value message of
        None \<Rightarrow> Inl ''Cannot read properties of null (reading 'toString')''
      | Some b \<Rightarrow>
          (case jsonParse b of
             Inl e \<Rightarrow> Inl e
           | Inr payload \<Rightarrow>
               if isNullish payload then Inl ''Cannot read properties of null (reading 'schema')''
               else Inr payload))"

definition isSimpleProtocol :: "jsval \<Rightarrow> bool" where
  "isSimpleProtocol payload =
     (truthy (getProp payload ''schema'') \<and> truthy (getProp payload ''table'')
      \<and> getProp payload ''type'' \<noteq> JUndefined)"

text \<open>Lines 188-197, the inner \<^verbatim>\<open>catch\<close>.\<close>

definition nonJsonMessage :: "message \<Rightarrow> string \<Rightarrow> effect list" where
  "nonJsonMessage message e =
     [LoggerWarn ''Received non-JSON message''
        [(''keyPresent'', JBool (m_key message \<noteq> None)),
         (''partition'', JNum (m_partition message)),
         (''offset'', JNum (m_offset message)),
         (''error'', JStr e)],
      KafkaMessagesTotalInc,
      CdcProcessingDuration (JStr ''unknown'') (JStr ''parse_error'')]"

subsection \<open>The simple protocol, lines 200-252\<close>

definition simpleOperationType :: "jsval \<Rightarrow> string" where
  "simpleOperationType payload =
     (if strictEquals (getProp payload ''type'') (JNum 0) then ''INSERT''
      else if strictEquals (getProp payload ''type'') (JNum 1) then ''UPDATE''
      else if strictEquals (getProp payload ''type'') (JNum 2) then ''DELETE''
      else ''unknown'')"

definition simpleData :: "string \<Rightarrow> jsval \<Rightarrow> jsval" where
  "simpleData operationType payload =
     (if operationType = ''INSERT'' \<and> truthy (getProp payload ''data'') then getProp payload ''data''
      else if operationType = ''UPDATE'' \<and> truthy (getProp payload ''data'') then getProp payload ''data''
      else if operationType = ''DELETE'' \<and> truthy (getProp payload ''data'') then getProp payload ''data''
      else JObj 0 [])"

text \<open>
  Lines 226-231: the operation after the email check; \<open>None\<close> when \<^verbatim>\<open>data.email.includes\<close>
  is not a function and the call throws.
\<close>

definition emailOverride :: "string \<Rightarrow> jsval \<Rightarrow> string option" where
  "emailOverride operationType d =
     (if operationType = ''INSERT'' \<and> truthy (getProp d ''email'') then
        (case callIncludes (getProp d ''email'') ''updated_'' of
           None \<Rightarrow> None
         | Some True \<Rightarrow> Some ''UPDATE''
         | Some False \<Rightarrow>
             (case callIncludes (getProp d ''email'') ''mass_update_'' of
                None \<Rightarrow> None
              | Some True \<Rightarrow> Some ''UPDATE''
              | Some False \<Rightarrow> Some operationType))
      else Some operationType)"

definition simplePath ::
  "int \<Rightarrow> message \<Rightarrow> jsval \<Rightarrow> jsval \<Rightarrow> jsval \<Rightarrow> jsval \<Rightarrow> effect list option" where
  "simplePath now message payload messageKey tableName0 rowId =
     (let tableName = js_or (getProp payload ''table'') tableName0;
          schemaName = js_or (getProp payload ''schema'') (JStr ''unknown'');
          d = simpleData (simpleOperationType payload) payload
      in case emailOverride (simpleOperationType payload) d of
           None \<Rightarrow> None
         | Some operationType \<Rightarrow> Some
             [CdcEventsCounterInc tableName (toLowerCase operationType),
              LoggerCDCEvent now
                [(''schema_name'', schemaName),
                 (''table_name'', tableName),
                 (''operation_type'', JStr operationType),
                 (''data'', d),
                 (''old_data'', js_or (getProp payload ''old'') JNull),
                 (''row_id'', rowId),
                 (''partition'', JNum (m_partition message)),
                 (''offset'', JNum (m_offset message)),
                 (''key'', messageKey),
                 (''protocol'', JStr ''simple'')],
              KafkaMessagesTotalInc,
              CdcProcessingDuration tableName (js_or (getProp payload ''type'') (JStr ''unknown''))])"

subsection \<open>Control events, lines 257-276\<close>

definition isControl :: "jsval \<Rightarrow> bool" where
  "isControl payload =
     (strictEquals (getProp payload ''type'') (JStr ''WATERMARK'')
      \<or> strictEquals (getProp payload ''type'') (JStr ''BOOTSTRAP''))"

definition controlPath :: "int \<Rightarrow> message \<Rightarrow> jsval \<Rightarrow> jsval \<Rightarrow> effect list option" where
  "controlPath now message payload messageKey =
     (case callToLowerCase (getProp payload ''type'') of
        None \<Rightarrow> None
      | Some lowered \<Rightarrow> Some
          [CdcEventsCounterInc (JStr ''unknown'') lowered,
           LoggerCDCEvent now
             [(''table_name'', JStr ''unknown''),
              (''operation_type'', getProp payload ''type''),
              (''data'', payload),
              (''offset'', JNum (m_offset message)),
              (''key'', messageKey)],
           KafkaMessagesTotalInc,
           CdcProcessingDuration (JStr ''unknown'') (JStr lowered)])"

subsection \<open>DELETE followed by INSERT, lines 278-408\<close>

text \<open>
  The template literal \<^verbatim>\<open>`${tableName}_${recordId}`\<close> of lines 286 and 333; \<open>None\<close> when the
  conversion of the table or of the record id throws.
\<close>

definition deleteKeyOf :: "jsval \<Rightarrow> jsval \<Rightarrow> string option" where
  "deleteKeyOf tableName recordId =
     (case toString tableName of
        None \<Rightarrow> None
      | Some t \<Rightarrow>
          (case toString recordId of
             None \<Rightarrow> None
           | Some r \<Rightarrow> Some (t @ ''_'' @ r)))"

text \<open>
  Lines 287-325, after the key is computed: the DELETE is recorded, its finalize callback
  scheduled, nothing emitted.
\<close>

definition trackDelete ::
  "int \<Rightarrow> message \<Rightarrow> jsval \<Rightarrow> jsval \<Rightarrow> jsval \<Rightarrow> jsval \<Rightarrow> string \<Rightarrow> consumer
     \<Rightarrow> effect list \<times> consumer" where
  "trackDelete now message payload messageKey tableName recordId deleteKey c =
     ([LoggerInfo ''Tracking DELETE for potential UPDATE detection''
         [(''table'', tableName),
          (''recordId'', recordId),
          (''commitTs'', getProp payload ''commitTs'')],
       KafkaMessagesTotalInc,
       CdcProcessingDuration tableName (JStr ''delete'')],
      c\<lparr> recentDeletes :=
           AList.update deleteKey
             \<lparr> commitTs = getProp payload ''commitTs'', timestamp = now,
               data = getProp payload ''old'' \<rparr>
             (recentDeletes c),
         timeouts := timeouts c @
           [\<lparr> t_due = now + correlationWindowMs, t_deleteKey = deleteKey,
              t_commitTs = getProp payload ''commitTs'', t_tableName = tableName,
              t_payload = payload, t_offset = m_offset message,
              t_messageKey = messageKey \<rparr>] \<rparr>)"

text \<open>Lines 300-321: the callback of \<^verbatim>\<open>setTimeout\<close>, run at the instant \<open>now\<close>.\<close>

definition finalize :: "int \<Rightarrow> finalizeTask \<Rightarrow> consumer \<Rightarrow> effect list \<times> consumer" where
  "finalize now task c =
     (case map_of (recentDeletes c) (t_deleteKey task) of
        None \<Rightarrow> ([], c)
      | Some info \<Rightarrow>
          if strictEquals (commitTs info) (t_commitTs task) then
            ([CdcEventsCounterInc (t_tableName task) ''delete'',
              LoggerCDCEvent now
                [(''table_name'', t_tableName task),
                 (''operation_type'', JStr ''DELETE''),
                 (''data'', t_payload task),
                 (''offset'', JNum (t_offset task)),
                 (''key'', t_messageKey task)]],
             c\<lparr> recentDeletes := AList.delete (t_deleteKey task) (recentDeletes c) \<rparr>)
          else ([], c))"

text \<open>Lines 341-369: the INSERT claims the pending DELETE and is emitted as one UPDATE.\<close>

definition detectedUpdate ::
  "int \<Rightarrow> message \<Rightarrow> jsval \<Rightarrow> jsval \<Rightarrow> jsval \<Rightarrow> jsval \<Rightarrow> string \<Rightarrow> deleteInfo
     \<Rightarrow> consumer \<Rightarrow> effect list \<times> consumer" where
  "detectedUpdate now message payload messageKey tableName recordId deleteKey info c =
     ([LoggerInfo ''Detected UPDATE operation''
         [(''table'', tableName),
          (''recordId'', recordId),
          (''commitTs'', getProp payload ''commitTs''),
          (''oldData'', data info),
          (''newData'', getProp payload ''data'')],
       CdcEventsCounterInc tableName ''update'',
       LoggerCDCEvent now
         [(''table_name'', tableName),
          (''operation_type'', JStr ''UPDATE''),
          (''oldData'', data info),
          (''newData'', getProp payload ''data''),
          (''offset'', JNum (m_offset message)),
          (''key'', messageKey)],
       KafkaMessagesTotalInc,
       CdcProcessingDuration tableName (JStr ''update'')],
      c\<lparr> recentDeletes := AList.delete deleteKey (recentDeletes c) \<rparr>)"

text \<open>Lines 374-391.\<close>

definition regularInsert :: "int \<Rightarrow> message \<Rightarrow> jsval \<Rightarrow> jsval \<Rightarrow> jsval \<Rightarrow> effect list" where
  "regularInsert now message payload messageKey tableName =
     [CdcEventsCounterInc tableName ''insert'',
      LoggerCDCEvent now
        [(''table_name'', tableName),
         (''operation_type'', JStr ''INSERT''),
         (''data'', getProp payload ''data''),
         (''offset'', JNum (m_offset message)),
         (''key'', messageKey)],
      KafkaMessagesTotalInc,
      CdcProcessingDuration tableName (JStr ''insert'')]"

text \<open>
  Lines 394-412; \<open>None\<close> when \<^verbatim>\<open>operationType.toLowerCase\<close> is not a function and the
  call throws, before the counter is touched.
\<close>

definition otherOperation ::
  "int \<Rightarrow> message \<Rightarrow> jsval \<Rightarrow> jsval \<Rightarrow> jsval \<Rightarrow> effect list option" where
  "otherOperation now message payload messageKey tableName =
     (let operationType = js_or (getProp payload ''type'') (JStr ''unknown'') in
      case callToLowerCase operationType of
        None \<Rightarrow> None
      | Some lowered \<Rightarrow> Some
          [CdcEventsCounterInc tableName lowered,
           LoggerCDCEvent now
             [(''table_name'', tableName),
              (''operation_type'', operationType),
              (''data'', payload),
              (''partition'', JNum (m_partition message)),
              (''offset'', JNum (m_offset message)),
              (''key'', messageKey)],
           KafkaMessagesTotalInc,
           CdcProcessingDuration tableName operationType])"

text \<open>
  Lines 278-408. The key is computed before anything is recorded or looked up, so a throw
  there leaves no effect and no change.
\<close>

definition splitPath ::
  "int \<Rightarrow> message \<Rightarrow> jsval \<Rightarrow> jsval \<Rightarrow> jsval \<Rightarrow> consumer \<Rightarrow> (effect list \<times> consumer) option" where
  "splitPath now message payload messageKey tableName0 c =
     (let tableName = js_or (getProp payload ''table'') tableName0;
          operationType = js_or (getProp payload ''type'') (JStr ''unknown'')
      in
      if strictEquals operationType (JStr ''DELETE'') \<and> truthy (getProp payload ''old'')
         \<and> extractRecordId (getProp payload ''old'') \<noteq> JNull
      then
        (case deleteKeyOf tableName (extractRecordId (getProp payload ''old'')) of
           None \<Rightarrow> None
         | Some deleteKey \<Rightarrow>
             Some (trackDelete now message payload messageKey tableName
                     (extractRecordId (getProp payload ''old'')) deleteKey c))
      else if strictEquals operationType (JStr ''INSERT'') \<and> truthy (getProp payload ''data'')
      then
        (if extractRecordId (getProp payload ''data'') \<noteq> JNull then
           (case deleteKeyOf tableName (extractRecordId (getProp payload ''data'')) of
              None \<Rightarrow> None
            | Some deleteKey \<Rightarrow>
                (case map_of (recentDeletes c) deleteKey of
                   None \<Rightarrow> Some (regularInsert now message payload messageKey tableName, c)
                 | Some info \<Rightarrow>
                     if strictEquals (commitTs info) (getProp payload ''commitTs'')
                     then Some (detectedUpdate now message payload messageKey tableName
                                  (extractRecordId (getProp payload ''data'')) deleteKey info c)
                     else Some (regularInsert now message payload messageKey tableName, c)))
         else Some (regularInsert now message payload messageKey tableName, c))
      else
        (case otherOperation now message payload messageKey tableName of
           None \<Rightarrow> None
         | Some effs \<Rightarrow> Some (effs, c)))"

subsection \<open>processCDCMessage, lines 155-419\<close>

text \<open>
  The body of the outer \<^verbatim>\<open>try\<close>; \<open>None\<close> when it throws. Every throw (\<^verbatim>\<open>includes\<close> or
  \<^verbatim>\<open>toLowerCase\<close> that is not a function, a key that does not convert) comes before the
  call's first effect and before any change to \<^verbatim>\<open>recentDeletes\<close>.
\<close>

definition processBody :: "int \<Rightarrow> message \<Rightarrow> consumer \<Rightarrow> (effect list \<times> consumer) option" where
  "processBody now message c =
     (case parseKey message of
        (messageKey, tableName, rowId) \<Rightarrow>
          (case parseValue message of
             Inl e \<Rightarrow> Some (nonJsonMessage message e, c)
           | Inr payload \<Rightarrow>
               if isSimpleProtocol payload then
                 (case simplePath now message payload messageKey tableName rowId of
                    None \<Rightarrow> None
                  | Some effs \<Rightarrow> Some (effs, c))
               else if isControl payload then
                 (case controlPath now message payload messageKey of
                    None \<Rightarrow> None
                  | Some effs \<Rightarrow> Some (effs, c))
               else splitPath now message payload messageKey tableName c))"

text \<open>Lines 414-418, the outer \<^verbatim>\<open>catch\<close>.\<close>

definition errorProcessing :: "effect list" where
  "errorProcessing =
     [LoggerError ''Error processing CDC message:'',
      KafkaErrorsTotalInc,
      CdcProcessingDuration (JStr ''error'') (JStr ''error'')]"

definition processCDCMessage :: "int \<Rightarrow> message \<Rightarrow> consumer \<Rightarrow> effect list \<times> consumer" where
  "processCDCMessage now message c =
     (case processBody now message c of
        None \<Rightarrow> (errorProcessing, c)
      | Some r \<Rightarrow> r)"

subsection \<open>The sweep, lines 116-124\<close>

fun sweepEntries ::
  "int \<Rightarrow> (string \<times> deleteInfo) list \<Rightarrow> (string \<times> deleteInfo) list \<Rightarrow> (string \<times> deleteInfo) list" where
  "sweepEntries now [] m = m"
| "sweepEntries now ((k, v) # es) m =
     sweepEntries now es (if now - timestamp v > stalenessMs then AList.delete k m else m)"

definition sweep :: "int \<Rightarrow> consumer \<Rightarrow> effect list \<times> consumer" where
  "sweep now c = ([], c\<lparr> recentDeletes := sweepEntries now (recentDeletes c) (recentDeletes c) \<rparr>)"

subsection \<open>The event loop\<close>

text \<open>
  One task of the event loop runs to completion at a time: a message handed to
  \<open>processCDCMessage\<close> (which never awaits), the callback of one pending \<^verbatim>\<open>setTimeout\<close>
  (not before it is due), or the callback of \<^verbatim>\<open>setInterval\<close> (not before its period has
  passed). Each task reads the clock once.
\<close>

datatype event = Deliver message | Timeout nat | Interval

definition step :: "int \<Rightarrow> event \<Rightarrow> consumer \<Rightarrow> effect list \<times> consumer" where
  "step now ev c =
     (case ev of
        Deliver message \<Rightarrow> processCDCMessage now message c
      | Timeout i \<Rightarrow>
          if i < length (timeouts c) \<and> t_due (timeouts c ! i) \<le> now
          then finalize now (timeouts c ! i)
                 (c\<lparr> timeouts := take i (timeouts c) @ drop (Suc i) (timeouts c) \<rparr>)
          else ([], c)
      | Interval \<Rightarrow>
          if sweepDue c \<le> now then sweep now (c\<lparr> sweepDue := now + sweepIntervalMs \<rparr>)
          else ([], c))"

fun run :: "(int \<times> event) list \<Rightarrow> consumer \<Rightarrow> effect list \<times> consumer" where
  "run [] c = ([], c)"
| "run ((now, ev) # evs) c =
     (case step now ev c of
        (effs1, c1) \<Rightarrow> (case run evs c1 of (effs2, c2) \<Rightarrow> (effs1 @ effs2, c2)))"

section \<open>The Canal-JSON consumers (src/consumer/index.js and src/unnamed/part\_000)\<close>

fun isArray :: "jsval \<Rightarrow> bool" where
  "isArray (JArr a xs) = True"
| "isArray _ = False"

fun elements :: "jsval \<Rightarrow> jsval list" where
  "elements (JArr a xs) = xs"
| "elements _ = []"

text \<open>
  The operation of one row (index.js lines 142-151, part\_000 lines 235-243); \<open>None\<close> when
  the row is \<^verbatim>\<open>null\<close> or its email has no \<^verbatim>\<open>includes\<close> method, and the read or the call throws.
\<close>

definition canalOperationType :: "jsval \<Rightarrow> jsval \<Rightarrow> jsval option" where
  "canalOperationType payload row =
     (let operationType = js_or (getProp payload ''type'') (JStr ''unknown'') in
      if strictEquals operationType (JStr ''INSERT'') then
        (if isNullish row then None
         else if truthy (getProp row ''email'') then
           (case callIncludes (getProp row ''email'') ''updated_'' of
              None \<Rightarrow> None
            | Some True \<Rightarrow> Some (JStr ''UPDATE'')
            | Some False \<Rightarrow>
                (case callIncludes (getProp row ''email'') ''mass_update_'' of
                   None \<Rightarrow> None
                 | Some True \<Rightarrow> Some (JStr ''UPDATE'')
                 | Some False \<Rightarrow> Some operationType))
         else Some operationType)
      else Some operationType)"

text \<open>
  One turn of the loop over \<^verbatim>\<open>payload.data\<close>; \<open>None\<close> when it throws, which it does before
  its first effect. \<open>keyField\<close> is what the version logs as \<^verbatim>\<open>key\<close>, \<open>extra\<close> the fields it
  logs after it.
\<close>

definition canalRow ::
  "int \<Rightarrow> message \<Rightarrow> jsval \<Rightarrow> jsval \<Rightarrow> jsval \<Rightarrow> meta \<Rightarrow> jsval \<Rightarrow> effect list option" where
  "canalRow now message payload tableName keyField extra row =
     (case canalOperationType payload row of
        None \<Rightarrow> None
      | Some operationType \<Rightarrow>
          (case callToLowerCase operationType of
             None \<Rightarrow> None
           | Some lowered \<Rightarrow> Some
               [CdcEventsCounterInc tableName lowered,
                LoggerCDCEvent now
                  ([(''table_name'', tableName),
                    (''operation_type'', operationType),
                    (''data'', row),
                    (''partition'', JNum (m_partition message)),
                    (''offset'', JNum (m_offset message)),
                    (''key'', keyField)] @ extra)]))"

text \<open>The loop: the effects of the rows done, and whether it ended without a throw.\<close>

fun canalRows ::
  "int \<Rightarrow> message \<Rightarrow> jsval \<Rightarrow> jsval \<Rightarrow> jsval \<Rightarrow> meta \<Rightarrow> jsval list \<Rightarrow> effect list \<times> bool" where
  "canalRows now message payload tableName keyField extra [] = ([], True)"
| "canalRows now message payload tableName keyField extra (row # rows) =
     (case canalRow now message payload tableName keyField extra row of
        None \<Rightarrow> ([], False)
      | Some effs \<Rightarrow>
          (case canalRows now message payload tableName keyField extra rows of
             (effs', ok) \<Rightarrow> (effs @ effs', ok)))"

text \<open>
  The \<^verbatim>\<open>else\<close> branch for every other format (index.js lines 171-188, part\_000 lines
  263-282); \<open>None\<close> when \<^verbatim>\<open>operationType.toLowerCase\<close> is not a function.
\<close>

definition otherFormat ::
  "int \<Rightarrow> message \<Rightarrow> jsval \<Rightarrow> jsval \<Rightarrow> jsval \<Rightarrow> meta \<Rightarrow> effect list option" where
  "otherFormat now message payload tableName keyField extra =
     (let operationType =
            js_or (getProp payload ''type'') (js_or (getProp payload ''op'') (JStr ''unknown'')) in
      case callToLowerCase operationType of
        None \<Rightarrow> None
      | Some lowered \<Rightarrow> Some
          [CdcEventsCounterInc tableName lowered,
           LoggerCDCEvent now
             ([(''table_name'', tableName),
               (''operation_type'', operationType),
               (''data'', payload),
               (''partition'', JNum (m_partition message)),
               (''offset'', JNum (m_offset message)),
               (''key'', keyField)] @ extra)])"

subsection \<open>src/consumer/index.js, lines 131-199\<close>

text \<open>\<^verbatim>\<open>message.key ? message.key.toString() : null\<close>\<close>

definition keyText :: "message \<Rightarrow> jsval" where
  "keyText message = (case m_key message of None \<Rightarrow> JNull | Some b \<Rightarrow> JStr (bufferText b))"

text \<open>
  The body of the \<^verbatim>\<open>try\<close>: its effects and whether it ended without a throw. A value that is
  null or does not parse throws at once; a payload that is \<^verbatim>\<open>null\<close> throws at
  \<^verbatim>\<open>payload.data\<close>, after the first log line.
\<close>

definition index_processBody :: "int \<Rightarrow> message \<Rightarrow> effect list \<times> bool" where
  "index_processBody now message =
     (case m_value message of
        None \<Rightarrow> ([], False)
      | Some b \<Rightarrow>
          (case jsonParse b of
             Inl e \<Rightarrow> ([], False)
           | Inr payload \<Rightarrow>
               if isNullish payload
               then ([LoggerInfoValue ''Processing CDC message:'' payload], False)
               else
                 (let tableName = js_or (getProp payload ''table'') (JStr ''unknown'');
                      done = [KafkaMessagesTotalInc,
                              CdcProcessingDuration tableName
                                (js_or (getProp payload ''type'') (JStr ''unknown''))]
                  in
                  if truthy (getProp payload ''data'') \<and> isArray (getProp payload ''data'') then
                    (case canalRows now message payload tableName (keyText message) []
                            (elements (getProp payload ''data'')) of
                       (effs, ok) \<Rightarrow>
                         (LoggerInfoValue ''Processing CDC message:'' payload # effs
                            @ (if ok then done else []), ok))
                  else
                    (case otherFormat now message payload tableName (keyText message) [] of
                       None \<Rightarrow> ([LoggerInfoValue ''Processing CDC message:'' payload], False)
                     | Some effs \<Rightarrow>
                         (LoggerInfoValue ''Processing CDC message:'' payload # effs @ done,
                          True)))))"

definition index_processCDCMessage :: "int \<Rightarrow> message \<Rightarrow> effect list" where
  "index_processCDCMessage now message =
     (case index_processBody now message of
        (effs, ok) \<Rightarrow> if ok then effs else effs @ errorProcessing)"

subsection \<open>src/unnamed/part\_000, lines 131-297\<close>

text \<open>
  The key, the value and the simple protocol are handled by the same lines as in part\_001.
  The loop assigns \<^verbatim>\<open>tableName\<close> in each turn, so after an empty array it still holds what
  the key gave.
\<close>

definition part000_processBody :: "int \<Rightarrow> message \<Rightarrow> effect list \<times> bool" where
  "part000_processBody now message =
     (case parseKey message of
        (messageKey, tableName0, rowId) \<Rightarrow>
          (case parseValue message of
             Inl e \<Rightarrow> (nonJsonMessage message e, True)
           | Inr payload \<Rightarrow>
               if isSimpleProtocol payload then
                 (case simplePath now message payload messageKey tableName0 rowId of
                    None \<Rightarrow> ([], False)
                  | Some effs \<Rightarrow> (effs, True))
               else
                 (let tableName = js_or (getProp payload ''table'') tableName0;
                      operation = js_or (getProp payload ''type'') (JStr ''unknown'')
                  in
                  if truthy (getProp payload ''data'') \<and> isArray (getProp payload ''data'') then
                    (case canalRows now message payload tableName messageKey
                            [(''protocol'', JStr ''canal-json'')]
                            (elements (getProp payload ''data'')) of
                       (effs, ok) \<Rightarrow>
                         (effs @ (if ok then
                                    [KafkaMessagesTotalInc,
                                     CdcProcessingDuration
                                       (if elements (getProp payload ''data'') = []
                                        then tableName0 else tableName) operation]
                                  else []), ok))
                  else
                    (case otherFormat now message payload tableName messageKey
                            [(''protocol'', JStr ''unknown'')] of
                       None \<Rightarrow> ([], False)
                     | Some effs \<Rightarrow>
                         (effs @ [KafkaMessagesTotalInc,
                                  CdcProcessingDuration tableName operation], True)))))"

definition part000_processCDCMessage :: "int \<Rightarrow> message \<Rightarrow> effect list" where
  "part000_processCDCMessage now message =
     (case part000_processBody now message of
        (effs, ok) \<Rightarrow> if ok then effs else effs @ errorProcessing)"

section \<open>What is observed\<close>

text \<open>The increments of \<^verbatim>\<open>tidb_cdc_events_total\<close> and the \<^verbatim>\<open>'CDC Event'\<close> log records, in order.\<close>

fun counterIncs :: "effect list \<Rightarrow> (jsval \<times> string) list" where
  "counterIncs [] = []"
| "counterIncs (CdcEventsCounterInc t ops # es) = (t, ops) # counterIncs es"
| "counterIncs (e # es) = counterIncs es"

fun cdcEvents :: "effect list \<Rightarrow> (int \<times> meta) list" where
  "cdcEvents [] = []"
| "cdcEvents (LoggerCDCEvent t m # es) = (t, m) # cdcEvents es"
| "cdcEvents (e # es) = cdcEvents es"

definition field :: "string \<Rightarrow> int \<times> meta \<Rightarrow> jsval" where
  "field name ev = (case map_of (snd ev) name of Some v \<Rightarrow> v | None \<Rightarrow> JUndefined)"

definition stale :: "int \<Rightarrow> string \<times> deleteInfo \<Rightarrow> bool" where
  "stale now kv = (now - timestamp (snd kv) > 5000)"

definition messageKeyOf :: "message \<Rightarrow> jsval" where
  "messageKeyOf message = fst (parseKey message)"

definition keyTableName :: "message \<Rightarrow> jsval" where
  "keyTableName message = fst (snd (parseKey message))"

definition tableNameOf :: "message \<Rightarrow> jsval \<Rightarrow> jsval" where
  "tableNameOf message payload = js_or (getProp payload ''table'') (keyTableName message)"

fun isString :: "jsval \<Rightarrow> bool" where
  "isString (JStr s) = True"
| "isString _ = False"

fun emailMatches :: "jsval \<Rightarrow> bool" where
  "emailMatches (JStr s) = (strIncludes s ''updated_'' \<or> strIncludes s ''mass_update_'')"
| "emailMatches _ = False"

definition jsonMessage :: "jsval \<Rightarrow> 54 word \<Rightarrow> message" where
  "jsonMessage payload off =
     \<lparr> m_key = None, m_value = Some (Buffer ''json'' (Inr payload)), m_partition = 0, m_offset = off \<rparr>"

definition simpleOp :: "jsval \<Rightarrow> string" where
  "simpleOp payload =
     (if getProp payload ''type'' = JNum 0 then
        (if emailMatches (getProp (getProp payload ''data'') ''email'') then ''UPDATE'' else ''INSERT'')
      else if getProp payload ''type'' = JNum 1 then ''UPDATE''
      else if getProp payload ''type'' = JNum 2 then ''DELETE''
      else ''unknown'')"

definition nonJsonExample :: message where
  "nonJsonExample =
     \<lparr> m_key = None,
       m_value = Some (Buffer ''not json'' (Inl ''Unexpected token o in JSON at position 1'')),
       m_partition = 0, m_offset = 5 \<rparr>"

definition simpleInsertExample :: message where
  "simpleInsertExample =
     jsonMessage (JObj 1 [(''schema'', JStr ''testdb''), (''table'', JStr ''users''),
                          (''type'', JNum 0),
                          (''data'', JObj 2 [(''id'', JNum 1), (''email'', JStr ''a@x.com'')])]) 1"

definition emptySchemaExample :: message where
  "emptySchemaExample =
     jsonMessage (JObj 1 [(''schema'', JStr []), (''table'', JStr ''users''),
                          (''type'', JNum 0),
                          (''data'', JObj 2 [(''id'', JNum 1), (''email'', JStr ''a@x.com'')])]) 1"

definition truncateExample :: message where
  "truncateExample =
     jsonMessage (JObj 1 [(''table'', JStr ''users''), (''type'', JStr ''TRUNCATE'')]) 3"

definition numericTagExample :: message where
  "numericTagExample =
     jsonMessage (JObj 1 [(''table'', JStr ''users''), (''type'', JNum 5)]) 4"

text \<open>
  A row the loop can read: not \<^verbatim>\<open>null\<close>, and its email falsy or a string (on any other
  truthy email \<^verbatim>\<open>includes\<close> is missing or is the array method).
\<close>

definition rowReadable :: "jsval \<Rightarrow> bool" where
  "rowReadable row =
     (\<not> isNullish row
      \<and> (\<not> truthy (getProp row ''email'') \<or> isString (getProp row ''email'')))"

text \<open>The operation of a row under the tag \<open>s\<close>: the tag, but UPDATE for an INSERT whose email matches.\<close>

definition rowOp :: "string \<Rightarrow> jsval \<Rightarrow> string" where
  "rowOp s row = (if s = ''INSERT'' \<and> emailMatches (getProp row ''email'') then ''UPDATE'' else s)"

definition canalExample :: message where
  "canalExample =
     jsonMessage
       (JObj 1 [(''table'', JStr ''users''), (''type'', JStr ''INSERT''),
                (''data'', JArr 2 [JObj 3 [(''id'', JNum 1), (''email'', JStr ''updated_1@x.com'')],
                                   JObj 4 [(''id'', JNum 2), (''email'', JStr ''b@x.com'')]])]) 7"

text \<open>An INSERT of two rows, the second with a matching email; and one whose first row is \<^verbatim>\<open>null\<close>.\<close>

definition secondRowPayload :: jsval where
  "secondRowPayload =
     JObj 1 [(''table'', JStr ''users''), (''type'', JStr ''INSERT''),
             (''data'', JArr 2 [JObj 3 [(''id'', JNum 1), (''email'', JStr ''a@x.com'')],
                                JObj 4 [(''id'', JNum 2), (''email'', JStr ''updated_2@x.com'')]])]"

definition secondRowExample :: message where
  "secondRowExample = jsonMessage secondRowPayload 9"

definition nullRowExample :: message where
  "nullRowExample =
     jsonMessage
       (JObj 1 [(''table'', JStr ''users''), (''type'', JStr ''INSERT''),
                (''data'', JArr 2 [JNull,
                                   JObj 4 [(''id'', JNum 2), (''email'', JStr ''updated_2@x.com'')]])]) 10"

definition simpleUpdatedExample :: message where
  "simpleUpdatedExample =
     jsonMessage (JObj 1 [(''schema'', JStr ''testdb''), (''table'', JStr ''users''),
                          (''type'', JNum 0),
                          (''data'', JObj 2 [(''id'', JNum 42), (''email'', JStr ''updated_42@x.com'')])]) 8"

definition rowEffects :: "int \<Rightarrow> message \<Rightarrow> jsval \<Rightarrow> jsval \<Rightarrow> meta \<Rightarrow> string \<Rightarrow> jsval \<Rightarrow> effect list" where
  "rowEffects now message tableName keyField extra s row =
     [CdcEventsCounterInc tableName (toLowerCase (rowOp s row)),
      LoggerCDCEvent now
        ([(''table_name'', tableName),
          (''operation_type'', JStr (rowOp s row)),
          (''data'', row),
          (''partition'', JNum (m_partition message)),
          (''offset'', JNum (m_offset message)),
          (''key'', keyField)] @ extra)]"

text \<open>
  A DELETE of the split-update path with an extractable record identity: tag DELETE, old
  image truthy, a record id extracted from it. An INSERT of that path with a record id.
\<close>

definition extractableDelete :: "message \<Rightarrow> jsval \<Rightarrow> bool" where
  "extractableDelete message payload =
     (parseValue message = Inr payload \<and> \<not> isSimpleProtocol payload
      \<and> getProp payload ''type'' = JStr ''DELETE''
      \<and> truthy (getProp payload ''old'')
      \<and> extractRecordId (getProp payload ''old'') \<noteq> JNull)"


text \<open>
  Such a DELETE is tracked under the key \<open>k\<close>, such an INSERT looks under the key \<open>k\<close>, when
  the table and the record id convert to strings and \<open>k\<close> is what line 286, or line 333,
  makes of them.
\<close>

definition trackedDelete :: "message \<Rightarrow> jsval \<Rightarrow> string \<Rightarrow> bool" where
  "trackedDelete message payload k =
     (extractableDelete message payload
      \<and> deleteKeyOf (tableNameOf message payload) (extractRecordId (getProp payload ''old''))
          = Some k)"


text \<open>The entry and the finalize task of a DELETE tracked under \<open>k\<close> at the instant \<open>t\<close>.\<close>

definition infoFor :: "int \<Rightarrow> jsval \<Rightarrow> deleteInfo" where
  "infoFor t payload =
     \<lparr> commitTs = getProp payload ''commitTs'', timestamp = t, data = getProp payload ''old'' \<rparr>"

definition taskFor :: "int \<Rightarrow> message \<Rightarrow> jsval \<Rightarrow> string \<Rightarrow> finalizeTask" where
  "taskFor t message payload k =
     \<lparr> t_due = t + 500, t_deleteKey = k,
       t_commitTs = getProp payload ''commitTs'', t_tableName = tableNameOf message payload,
       t_payload = payload, t_offset = m_offset message, t_messageKey = messageKeyOf message \<rparr>"


definition deleteEvent :: "int \<Rightarrow> message \<Rightarrow> jsval \<Rightarrow> int \<times> meta" where
  "deleteEvent t message payload =
     (t, [(''table_name'', tableNameOf message payload),
          (''operation_type'', JStr ''DELETE''),
          (''data'', payload),
          (''offset'', JNum (m_offset message)),
          (''key'', messageKeyOf message)])"

definition usersKey :: buffer where
  "usersKey = Buffer ''{\"tbl\":\"users\",\"rid\":\"7\"}''
                (Inr (JObj 10 [(''tbl'', JStr ''users''), (''rid'', JStr ''7'')]))"

definition deletePayload :: jsval where
  "deletePayload =
     JObj 11 [(''table'', JStr ''users''), (''type'', JStr ''DELETE''),
              (''old'', JObj 12 [(''id'', JNum 7), (''email'', JStr ''a@x.com'')]),
              (''commitTs'', JNum 100)]"



definition deleteExample :: message where
  "deleteExample =
     \<lparr> m_key = Some usersKey, m_value = Some (Buffer ''delete'' (Inr deletePayload)),
       m_partition = 0, m_offset = 1 \<rparr>"





text \<open>
  A DELETE and an INSERT whose table is an object with an own property \<^verbatim>\<open>toString\<close>: the
  template literal throws on it.
\<close>

definition shadowedDeletePayload :: jsval where
  "shadowedDeletePayload =
     JObj 21 [(''table'', JObj 22 [(''toString'', JStr ''users'')]), (''type'', JStr ''DELETE''),
              (''old'', JObj 23 [(''id'', JNum 7), (''email'', JStr ''a@x.com'')]),
              (''commitTs'', JNum 100)]"

definition shadowedDeleteExample :: message where
  "shadowedDeleteExample =
     \<lparr> m_key = Some usersKey, m_value = Some (Buffer ''delete'' (Inr shadowedDeletePayload)),
       m_partition = 0, m_offset = 4 \<rparr>"

text \<open>
  What the three competitors leave in the effects: a registration is the log line of a
  tracked DELETE; the UPDATE of a claimed pending delete is the only event with an
  \<^verbatim>\<open>oldData\<close> field; the DELETE of a finalize callback is the only DELETE event without a
  \<^verbatim>\<open>partition\<close> field.
\<close>

fun isRegistration :: "effect \<Rightarrow> bool" where
  "isRegistration (LoggerInfo msg m) = (msg = ''Tracking DELETE for potential UPDATE detection'')"
| "isRegistration _ = False"

fun isCollapsedUpdate :: "effect \<Rightarrow> bool" where
  "isCollapsedUpdate (LoggerCDCEvent t m) =
     (map_of m ''operation_type'' = Some (JStr ''UPDATE'') \<and> map_of m ''oldData'' \<noteq> None)"
| "isCollapsedUpdate _ = False"

fun isStandaloneDelete :: "effect \<Rightarrow> bool" where
  "isStandaloneDelete (LoggerCDCEvent t m) =
     (map_of m ''operation_type'' = Some (JStr ''DELETE'') \<and> map_of m ''partition'' = None)"
| "isStandaloneDelete _ = False"

definition registrations :: "effect list \<Rightarrow> nat" where
  "registrations effs = length (filter isRegistration effs)"

definition emissions :: "effect list \<Rightarrow> nat" where
  "emissions effs =
     length (filter isCollapsedUpdate effs) + length (filter isStandaloneDelete effs)"



lemma counterIncs_append: "counterIncs (xs @ ys) = counterIncs xs @ counterIncs ys"
  by (induction xs rule: counterIncs.induct) auto

lemma cdcEvents_append: "cdcEvents (xs @ ys) = cdcEvents xs @ cdcEvents ys"
  by (induction xs rule: cdcEvents.induct) auto

section \<open>The sweep\<close>

lemma sweepEntries_filter:
  "sweepEntries now es m = filter (\<lambda>kv. fst kv \<notin> fst ` {e \<in> set es. stale now e}) m"
proof (induction es arbitrary: m)
  case Nil
  then show ?case by simp
next
  case (Cons e es)
  obtain k v where e: "e = (k, v)" by (cases e)
  show ?case
  proof (cases "stale now e")
    case True
    then have "sweepEntries now (e # es) m = sweepEntries now es (AList.delete k m)"
      by (simp add: e stale_def stalenessMs_def)
    also have "\<dots> = filter (\<lambda>kv. fst kv \<notin> fst ` {e \<in> set es. stale now e}) (AList.delete k m)"
      by (rule Cons.IH)
    also have "\<dots> = filter (\<lambda>kv. fst kv \<notin> fst ` {x \<in> set (e # es). stale now x}) m"
      using True unfolding e AList.delete_eq filter_filter
      by (intro filter_cong refl) force
    finally show ?thesis .
  next
    case False
    then have "sweepEntries now (e # es) m = sweepEntries now es m"
      by (simp add: e stale_def stalenessMs_def)
    also have "\<dots> = filter (\<lambda>kv. fst kv \<notin> fst ` {e \<in> set es. stale now e}) m"
      by (rule Cons.IH)
    also have "\<dots> = filter (\<lambda>kv. fst kv \<notin> fst ` {x \<in> set (e # es). stale now x}) m"
      using False by (intro filter_cong refl) force
    finally show ?thesis .
  qed
qed

text \<open>The keys of a \<^verbatim>\<open>Map\<close> are distinct; then the loop keeps exactly the entries that are not stale.\<close>

lemma sweepEntries_self:
  assumes "distinct (map fst m)"
  shows "sweepEntries now m m = filter (\<lambda>kv. \<not> stale now kv) m"
proof -
  have "fst kv \<notin> fst ` {e \<in> set m. stale now e} \<longleftrightarrow> \<not> stale now kv" if "kv \<in> set m" for kv
  proof
    assume "fst kv \<notin> fst ` {e \<in> set m. stale now e}"
    with that show "\<not> stale now kv" by auto
  next
    assume ns: "\<not> stale now kv"
    show "fst kv \<notin> fst ` {e \<in> set m. stale now e}"
    proof
      assume "fst kv \<in> fst ` {e \<in> set m. stale now e}"
      then obtain e where e: "e \<in> set m" "stale now e" "fst e = fst kv" by auto
      with assms that have "e = kv"
        by (metis eq_key_imp_eq_value prod.collapse)
      with e ns show False by simp
    qed
  qed
  then show ?thesis
    unfolding sweepEntries_filter by (intro filter_cong) auto
qed

text \<open>
  C8. One run of the sweep's callback at the instant \<open>now\<close> emits nothing (no counter
  increment, no log record, no effect at all) and leaves the pending timeouts alone. When
  its period has passed it removes from \<^verbatim>\<open>recentDeletes\<close> every entry captured more than
  5000 ms before \<open>now\<close>, keeps every other entry in place, and is due again 30000 ms
  later; before that it does not run.
\<close>

theorem sweep_removes_stale_emits_nothing:
  assumes "distinct (map fst (recentDeletes c))"
  shows "fst (step now Interval c) = []
     \<and> timeouts (snd (step now Interval c)) = timeouts c
     \<and> (sweepDue c \<le> now \<longrightarrow>
          recentDeletes (snd (step now Interval c))
            = filter (\<lambda>kv. \<not> now - timestamp (snd kv) > 5000) (recentDeletes c)
          \<and> sweepDue (snd (step now Interval c)) = now + 30000)
     \<and> (\<not> sweepDue c \<le> now \<longrightarrow> snd (step now Interval c) = c)"
  using sweepEntries_self [OF assms, of now]
  by (simp add: step_def sweep_def stale_def sweepIntervalMs_def)

theorem sweep_removes_stale_emits_nothing_witness:
  "distinct (map fst
      [(''users_7'', \<lparr> commitTs = JNum 100, timestamp = 0, data = JNull \<rparr>),
       (''users_8'', \<lparr> commitTs = JNum 101, timestamp = 26000, data = JNull \<rparr>)])
   \<and> (30000::int) \<le> 30000
   \<and> fst (step 30000 Interval
        \<lparr> recentDeletes =
            [(''users_7'', \<lparr> commitTs = JNum 100, timestamp = 0, data = JNull \<rparr>),
             (''users_8'', \<lparr> commitTs = JNum 101, timestamp = 26000, data = JNull \<rparr>)],
          timeouts = [], sweepDue = 30000 \<rparr>) = []
   \<and> recentDeletes (snd (step 30000 Interval
        \<lparr> recentDeletes =
            [(''users_7'', \<lparr> commitTs = JNum 100, timestamp = 0, data = JNull \<rparr>),
             (''users_8'', \<lparr> commitTs = JNum 101, timestamp = 26000, data = JNull \<rparr>)],
          timeouts = [], sweepDue = 30000 \<rparr>))
      = [(''users_8'', \<lparr> commitTs = JNum 101, timestamp = 26000, data = JNull \<rparr>)]"
  using sweep_removes_stale_emits_nothing
    [of "\<lparr> recentDeletes =
            [(''users_7'', \<lparr> commitTs = JNum 100, timestamp = 0, data = JNull \<rparr>),
             (''users_8'', \<lparr> commitTs = JNum 101, timestamp = 26000, data = JNull \<rparr>)],
          timeouts = [], sweepDue = 30000 \<rparr>" 30000]
  by simp

section \<open>One message at a time\<close>

lemma strictEquals_JNum [simp]: "strictEquals v (JNum n) = (v = JNum n)"
  by (cases v) auto

lemma strictEquals_JStr [simp]: "strictEquals v (JStr s) = (v = JStr s)"
  by (cases v) auto

lemma strictEquals_refl [simp]: "strictEquals v v"
  by (cases v) auto

lemma strictEquals_sym: "strictEquals a b = strictEquals b a"
  by (cases a; cases b) auto

lemma processBody_unfold:
  "processBody now message c =
     (case parseValue message of
        Inl e \<Rightarrow> Some (nonJsonMessage message e, c)
      | Inr payload \<Rightarrow>
          if isSimpleProtocol payload then
            (case simplePath now message payload (messageKeyOf message) (keyTableName message)
                     (snd (snd (parseKey message))) of
               None \<Rightarrow> None
             | Some effs \<Rightarrow> Some (effs, c))
          else if isControl payload then
            (case controlPath now message payload (messageKeyOf message) of
               None \<Rightarrow> None
             | Some effs \<Rightarrow> Some (effs, c))
          else splitPath now message payload (messageKeyOf message) (keyTableName message) c)"
  by (cases "parseKey message" rule: prod_cases3)
     (simp add: processBody_def messageKeyOf_def keyTableName_def split: sum.splits)

lemmas consumer_defs =
  processCDCMessage_def processBody_def parseKey_def parseValue_def isSimpleProtocol_def
  isControl_def simplePath_def simpleOperationType_def simpleData_def emailOverride_def
  controlPath_def splitPath_def otherOperation_def regularInsert_def detectedUpdate_def
  trackDelete_def finalize_def deleteKeyOf_def extractRecordId_def nonJsonMessage_def
  errorProcessing_def js_or_def toLowerCase_def lowerChar_def numberToString_def
  correlationWindowMs_def sweepIntervalMs_def stalenessMs_def constructor_def step_def
  sweep_def jsonMessage_def field_def Let_def

text \<open>
  C5, as the code has it. A message whose value does not parse as JSON is logged as a
  warning, counted as consumed and timed under the labels (unknown, parse\_error); that is
  all. \<^verbatim>\<open>tidb_cdc_events_total\<close> is not incremented and no \<^verbatim>\<open>'CDC Event'\<close> record is written.
  No normalizer runs: \<^verbatim>\<open>recentDeletes\<close> and the timeouts are as before. Nothing is thrown
  to the caller, and the next message is processed as if this one had not come.
\<close>

theorem non_json_value_is_logged_and_skipped:
  assumes "m_value message = Some b" and "jsonParse b = Inl e"
  shows "processCDCMessage now message c =
           ([LoggerWarn ''Received non-JSON message''
               [(''keyPresent'', JBool (m_key message \<noteq> None)),
                (''partition'', JNum (m_partition message)),
                (''offset'', JNum (m_offset message)),
                (''error'', JStr e)],
             KafkaMessagesTotalInc,
             CdcProcessingDuration (JStr ''unknown'') (JStr ''parse_error'')], c)
       \<and> counterIncs (fst (processCDCMessage now message c)) = []
       \<and> cdcEvents (fst (processCDCMessage now message c)) = []
       \<and> snd (run [(now, Deliver message), (now', Deliver next)] c)
           = snd (processCDCMessage now' next c)
       \<and> fst (run [(now, Deliver message), (now', Deliver next)] c)
           = fst (processCDCMessage now message c) @ fst (processCDCMessage now' next c)"
proof -
  have pv: "parseValue message = Inl e"
    using assms by (simp add: parseValue_def)
  have p: "processCDCMessage now message c = (nonJsonMessage message e, c)"
    by (simp add: processCDCMessage_def processBody_unfold pv)
  show ?thesis
    by (simp add: p nonJsonMessage_def step_def split: prod.splits)
qed

text \<open>
  The theorem at a message whose value is the text \<^verbatim>\<open>not json\<close>.
\<close>

theorem non_json_value_is_logged_and_skipped_witness:
  "m_value nonJsonExample = Some (Buffer ''not json'' (Inl ''Unexpected token o in JSON at position 1''))
   \<and> jsonParse (Buffer ''not json'' (Inl ''Unexpected token o in JSON at position 1''))
        = Inl ''Unexpected token o in JSON at position 1''
   \<and> processCDCMessage 0 nonJsonExample (constructor 0) =
        ([LoggerWarn ''Received non-JSON message''
            [(''keyPresent'', JBool False), (''partition'', JNum 0), (''offset'', JNum 5),
             (''error'', JStr ''Unexpected token o in JSON at position 1'')],
          KafkaMessagesTotalInc,
          CdcProcessingDuration (JStr ''unknown'') (JStr ''parse_error'')], constructor 0)"
  using non_json_value_is_logged_and_skipped
    [of nonJsonExample "Buffer ''not json'' (Inl ''Unexpected token o in JSON at position 1'')"
        "''Unexpected token o in JSON at position 1''" 0 "constructor 0"]
  by (simp add: nonJsonExample_def)

text \<open>
  C5 as stated asks for one PARSE\_ERROR event with its counter increment. On the message
  \<^verbatim>\<open>not json\<close> the events counter is not incremented and no event record is logged.
\<close>

theorem parse_error_increments_no_event_counter:
  "jsonParse (Buffer ''not json'' (Inl ''Unexpected token o in JSON at position 1''))
     = Inl ''Unexpected token o in JSON at position 1''
   \<and> counterIncs (fst (processCDCMessage 0 nonJsonExample (constructor 0))) = []
   \<and> cdcEvents (fst (processCDCMessage 0 nonJsonExample (constructor 0))) = []"
  by (simp add: nonJsonExample_def consumer_defs)

lemma getProp_falsy: "\<not> truthy d \<Longrightarrow> getProp d name = JUndefined"
  by (cases d) auto

lemma simpleData_email:
  "getProp (simpleData (simpleOperationType payload) payload) ''email''
     = (if simpleOperationType payload = ''unknown'' then JUndefined
        else getProp (getProp payload ''data'') ''email'')"
  by (auto simp: simpleData_def simpleOperationType_def getProp_falsy)

lemma emailOverride_simple:
  assumes "getProp payload ''type'' = JNum 0 \<longrightarrow>
             \<not> truthy (getProp (getProp payload ''data'') ''email'')
             \<or> isString (getProp (getProp payload ''data'') ''email'')"
  shows "emailOverride (simpleOperationType payload)
           (simpleData (simpleOperationType payload) payload) = Some (simpleOp payload)"
proof (cases "getProp payload ''type'' = JNum 0")
  case True
  then have op: "simpleOperationType payload = ''INSERT''"
    by (simp add: simpleOperationType_def)
  let ?e = "getProp (getProp payload ''data'') ''email''"
  have e: "getProp (simpleData ''INSERT'' payload) ''email'' = ?e"
    using simpleData_email [of payload] by (simp add: op)
  from assms True have "\<not> truthy ?e \<or> isString ?e" by simp
  then show ?thesis
  proof
    assume "\<not> truthy ?e"
    then show ?thesis
      by (cases ?e) (auto simp: emailOverride_def op e simpleOp_def True)
  next
    assume "isString ?e"
    then obtain s where s: "?e = JStr s" by (cases ?e) auto
    show ?thesis
      by (auto simp: emailOverride_def op e simpleOp_def True s split: bool.splits)
  qed
next
  case False
  then show ?thesis
    by (auto simp: emailOverride_def simpleOperationType_def simpleOp_def)
qed

text \<open>
  C6, as the code has it. A payload whose \<^verbatim>\<open>schema\<close> and \<^verbatim>\<open>table\<close> are truthy and whose
  \<^verbatim>\<open>type\<close> is not \<^verbatim>\<open>undefined\<close> is handled as simple protocol and gives exactly one event:
  type 0 is INSERT (UPDATE when the email check reclassifies it), 1 is UPDATE, 2 is DELETE,
  anything else is \<^verbatim>\<open>unknown\<close>. For type 0 the email of the row, when truthy, has to be a
  string: on any other truthy email \<^verbatim>\<open>includes\<close> throws.
\<close>

theorem simple_protocol_maps_type:
  assumes "parseValue message = Inr payload"
    and "truthy (getProp payload ''schema'')"
    and "truthy (getProp payload ''table'')"
    and "getProp payload ''type'' \<noteq> JUndefined"
    and "getProp payload ''type'' = JNum 0 \<longrightarrow>
           \<not> truthy (getProp (getProp payload ''data'') ''email'')
           \<or> isString (getProp (getProp payload ''data'') ''email'')"
  shows "isSimpleProtocol payload
     \<and> snd (processCDCMessage now message c) = c
     \<and> counterIncs (fst (processCDCMessage now message c))
         = [(getProp payload ''table'', toLowerCase (simpleOp payload))]
     \<and> map (field ''operation_type'') (cdcEvents (fst (processCDCMessage now message c)))
         = [JStr (simpleOp payload)]
     \<and> map (field ''protocol'') (cdcEvents (fst (processCDCMessage now message c)))
         = [JStr ''simple'']"
proof -
  have s: "isSimpleProtocol payload"
    using assms(2-4) by (simp add: isSimpleProtocol_def)
  note eo = emailOverride_simple [OF assms(5)]
  have "processCDCMessage now message c =
          (the (simplePath now message payload (messageKeyOf message) (keyTableName message)
                  (snd (snd (parseKey message)))), c)"
    by (simp add: processCDCMessage_def processBody_unfold assms(1) s simplePath_def eo Let_def)
  then show ?thesis
    using assms(3)
    by (simp add: s simplePath_def eo Let_def field_def js_or_def)
qed

text \<open>
  The theorem at an INSERT of the simple protocol.
\<close>

theorem simple_protocol_maps_type_witness:
  "parseValue simpleInsertExample
     = Inr (JObj 1 [(''schema'', JStr ''testdb''), (''table'', JStr ''users''),
                    (''type'', JNum 0),
                    (''data'', JObj 2 [(''id'', JNum 1), (''email'', JStr ''a@x.com'')])])
   \<and> counterIncs (fst (processCDCMessage 0 simpleInsertExample (constructor 0)))
        = [(JStr ''users'', ''insert'')]
   \<and> map (field ''operation_type'')
        (cdcEvents (fst (processCDCMessage 0 simpleInsertExample (constructor 0))))
        = [JStr ''INSERT'']"
  using simple_protocol_maps_type
    [of simpleInsertExample
        "JObj 1 [(''schema'', JStr ''testdb''), (''table'', JStr ''users''),
                 (''type'', JNum 0),
                 (''data'', JObj 2 [(''id'', JNum 1), (''email'', JStr ''a@x.com'')])]"
        0 "constructor 0"]
  by (simp add: simpleInsertExample_def jsonMessage_def parseValue_def simpleOp_def
        toLowerCase_def lowerChar_def)

text \<open>
  C6 as stated takes every payload whose three fields are present. With a \<^verbatim>\<open>schema\<close> that
  is present and empty the payload is not handled as simple protocol: type 0 is falsy, the
  event is \<^verbatim>\<open>unknown\<close>, not INSERT, and carries no \<^verbatim>\<open>protocol\<close> field.
\<close>

theorem present_but_empty_schema_is_not_simple:
  "parseValue emptySchemaExample
     = Inr (JObj 1 [(''schema'', JStr []), (''table'', JStr ''users''),
                    (''type'', JNum 0),
                    (''data'', JObj 2 [(''id'', JNum 1), (''email'', JStr ''a@x.com'')])])
   \<and> getProp (JObj 1 [(''schema'', JStr []), (''table'', JStr ''users''),
                    (''type'', JNum 0),
                    (''data'', JObj 2 [(''id'', JNum 1), (''email'', JStr ''a@x.com'')])])
        ''schema'' \<noteq> JUndefined
   \<and> counterIncs (fst (processCDCMessage 0 emptySchemaExample (constructor 0)))
        = [(JStr ''users'', ''unknown'')]
   \<and> map (field ''operation_type'')
        (cdcEvents (fst (processCDCMessage 0 emptySchemaExample (constructor 0))))
        = [JStr ''unknown'']
   \<and> map (field ''protocol'')
        (cdcEvents (fst (processCDCMessage 0 emptySchemaExample (constructor 0))))
        = [JUndefined]"
  by (simp add: emptySchemaExample_def consumer_defs)

text \<open>
  C9, as the code has it. On the split-update path, for a tag that is neither INSERT nor
  DELETE nor a control tag, the message never changes the consumer's state and nothing is
  thrown to the caller. A tag that is a string is emitted as it is, in exactly one event;
  a falsy tag (absent, \<^verbatim>\<open>null\<close>, \<^verbatim>\<open>false\<close>, 0, the empty string) is emitted as \<^verbatim>\<open>unknown\<close>. A
  truthy tag that is not a string has no \<^verbatim>\<open>toLowerCase\<close>: the call throws before the
  counter is touched, the outer \<^verbatim>\<open>catch\<close> counts an error, and no event is emitted.
\<close>

theorem other_operation_tag:
  assumes "parseValue message = Inr payload"
    and "\<not> isSimpleProtocol payload"
    and "\<not> isControl payload"
    and "getProp payload ''type'' \<noteq> JStr ''INSERT''"
    and "getProp payload ''type'' \<noteq> JStr ''DELETE''"
  shows "snd (processCDCMessage now message c) = c
     \<and> (case js_or (getProp payload ''type'') (JStr ''unknown'') of
          JStr s \<Rightarrow>
            counterIncs (fst (processCDCMessage now message c))
              = [(tableNameOf message payload, toLowerCase s)]
            \<and> cdcEvents (fst (processCDCMessage now message c))
              = [(now, [(''table_name'', tableNameOf message payload),
                        (''operation_type'', JStr s),
                        (''data'', payload),
                        (''partition'', JNum (m_partition message)),
                        (''offset'', JNum (m_offset message)),
                        (''key'', messageKeyOf message)])]
        | _ \<Rightarrow>
            fst (processCDCMessage now message c)
              = [LoggerError ''Error processing CDC message:'', KafkaErrorsTotalInc,
                 CdcProcessingDuration (JStr ''error'') (JStr ''error'')])"
proof -
  let ?op = "js_or (getProp payload ''type'') (JStr ''unknown'')"
  have ne: "?op \<noteq> JStr ''INSERT''" "?op \<noteq> JStr ''DELETE''"
    using assms(4,5) by (auto simp: js_or_def)
  have sp: "splitPath now message payload (messageKeyOf message) (keyTableName message) c
        = (case otherOperation now message payload (messageKeyOf message)
                  (tableNameOf message payload) of
             None \<Rightarrow> None | Some effs \<Rightarrow> Some (effs, c))"
    using ne by (simp add: splitPath_def Let_def tableNameOf_def)
  have p: "processCDCMessage now message c
        = (case otherOperation now message payload (messageKeyOf message)
                  (tableNameOf message payload) of
             None \<Rightarrow> (errorProcessing, c) | Some effs \<Rightarrow> (effs, c))"
    by (simp add: processCDCMessage_def processBody_unfold assms(1,2,3) sp split: option.splits)
  show ?thesis
    by (cases ?op) (simp_all add: p otherOperation_def Let_def errorProcessing_def)
qed

text \<open>
  The theorem at the tag TRUNCATE.
\<close>

theorem other_operation_tag_witness:
  "parseValue truncateExample
     = Inr (JObj 1 [(''table'', JStr ''users''), (''type'', JStr ''TRUNCATE'')])
   \<and> \<not> isSimpleProtocol (JObj 1 [(''table'', JStr ''users''), (''type'', JStr ''TRUNCATE'')])
   \<and> \<not> isControl (JObj 1 [(''table'', JStr ''users''), (''type'', JStr ''TRUNCATE'')])
   \<and> counterIncs (fst (processCDCMessage 0 truncateExample (constructor 0)))
        = [(JStr ''users'', ''truncate'')]
   \<and> map (field ''operation_type'')
        (cdcEvents (fst (processCDCMessage 0 truncateExample (constructor 0))))
        = [JStr ''TRUNCATE'']"
  using other_operation_tag
    [of truncateExample "JObj 1 [(''table'', JStr ''users''), (''type'', JStr ''TRUNCATE'')]"
        0 "constructor 0"]
  by (simp add: truncateExample_def jsonMessage_def parseValue_def isSimpleProtocol_def
        isControl_def js_or_def tableNameOf_def keyTableName_def parseKey_def field_def
        toLowerCase_def lowerChar_def)

text \<open>
  C9 as stated covers tags that are not strings. For the tag 5 no event is emitted.
\<close>

theorem numeric_tag_emits_no_event:
  "parseValue numericTagExample = Inr (JObj 1 [(''table'', JStr ''users''), (''type'', JNum 5)])
   \<and> \<not> isSimpleProtocol (JObj 1 [(''table'', JStr ''users''), (''type'', JNum 5)])
   \<and> \<not> isControl (JObj 1 [(''table'', JStr ''users''), (''type'', JNum 5)])
   \<and> counterIncs (fst (processCDCMessage 0 numericTagExample (constructor 0))) = []
   \<and> cdcEvents (fst (processCDCMessage 0 numericTagExample (constructor 0))) = []"
  by (simp add: numericTagExample_def consumer_defs)

section \<open>Arrays of rows and the email pattern\<close>

lemma strIncludes_nonempty: "strIncludes s (p # ps) \<Longrightarrow> s \<noteq> []"
  by (cases s) auto

lemma canalOperationType_readable:
  assumes "js_or (getProp payload ''type'') (JStr ''unknown'') = JStr s"
    and "s = ''INSERT'' \<longrightarrow> rowReadable row"
  shows "canalOperationType payload row = Some (JStr (rowOp s row))"
proof (cases "s = ''INSERT''")
  case False
  with assms(1) show ?thesis
    by (simp add: canalOperationType_def rowOp_def Let_def)
next
  case True
  with assms(2) have r: "\<not> isNullish row"
    and e: "\<not> truthy (getProp row ''email'') \<or> isString (getProp row ''email'')"
    by (auto simp: rowReadable_def)
  from e show ?thesis
  proof
    assume "\<not> truthy (getProp row ''email'')"
    then show ?thesis
      using assms(1) True r
      by (cases "getProp row ''email''")
         (auto simp: canalOperationType_def rowOp_def Let_def dest: strIncludes_nonempty)
  next
    assume "isString (getProp row ''email'')"
    then obtain e where "getProp row ''email'' = JStr e"
      by (cases "getProp row ''email''") auto
    then show ?thesis
      using assms(1) True r
      by (auto simp: canalOperationType_def rowOp_def Let_def dest: strIncludes_nonempty
            split: bool.splits)
  qed
qed

lemma canalRow_readable:
  assumes "js_or (getProp payload ''type'') (JStr ''unknown'') = JStr s"
    and "s = ''INSERT'' \<longrightarrow> rowReadable row"
  shows "canalRow now message payload tableName keyField extra row
           = Some (rowEffects now message tableName keyField extra s row)"
  by (simp add: canalRow_def canalOperationType_readable [OF assms] rowEffects_def)

lemma canalRows_readable:
  assumes "js_or (getProp payload ''type'') (JStr ''unknown'') = JStr s"
    and "s = ''INSERT'' \<longrightarrow> (\<forall>r \<in> set rows. rowReadable r)"
  shows "canalRows now message payload tableName keyField extra rows
           = (concat (map (rowEffects now message tableName keyField extra s) rows), True)"
  using assms(2)
proof (induction rows)
  case Nil
  then show ?case by simp
next
  case (Cons r rows)
  then have "s = ''INSERT'' \<longrightarrow> rowReadable r" by simp
  from canalRow_readable [OF assms(1) this] Cons show ?case by simp
qed

lemma canalRows_append:
  "canalRows now message payload tableName keyField extra (xs @ ys)
     = (case canalRows now message payload tableName keyField extra xs of
          (e1, ok1) \<Rightarrow>
            if ok1 then
              (case canalRows now message payload tableName keyField extra ys of
                 (e2, ok2) \<Rightarrow> (e1 @ e2, ok2))
            else (e1, False))"
  by (induction xs) (auto split: option.splits prod.splits)

lemma cdcEvents_rowEffects:
  "cdcEvents (concat (map (rowEffects now message tableName keyField extra s) rows))
     = map (\<lambda>row. (now, [(''table_name'', tableName),
                          (''operation_type'', JStr (rowOp s row)),
                          (''data'', row),
                          (''partition'', JNum (m_partition message)),
                          (''offset'', JNum (m_offset message)),
                          (''key'', keyField)] @ extra)) rows"
  by (induction rows) (simp_all add: rowEffects_def)

lemma counterIncs_rowEffects:
  "counterIncs (concat (map (rowEffects now message tableName keyField extra s) rows))
     = map (\<lambda>row. (tableName, toLowerCase (rowOp s row))) rows"
  by (induction rows) (simp_all add: rowEffects_def)

text \<open>Whatever the rows are, the events logged are those of a prefix of the rows, one each.\<close>

lemma canalRow_Some:
  assumes "canalRow now message payload tableName keyField extra row = Some effs"
  shows "\<exists>lowered op. effs =
           [CdcEventsCounterInc tableName lowered,
            LoggerCDCEvent now
              ([(''table_name'', tableName), (''operation_type'', op), (''data'', row),
                (''partition'', JNum (m_partition message)),
                (''offset'', JNum (m_offset message)),
                (''key'', keyField)] @ extra)]"
  using assms by (auto simp: canalRow_def split: option.splits)

lemma field_data_row:
  "field ''data'' (now, (''table_name'', t) # (''operation_type'', op) # (''data'', r) # rest) = r"
  by (simp add: field_def)

lemma canalRows_prefix:
  "map (field ''data'') (cdcEvents (fst (canalRows now message payload tableName keyField extra rows)))
     = take (length (cdcEvents (fst (canalRows now message payload tableName keyField extra rows)))) rows"
proof (induction rows)
  case Nil
  then show ?case by simp
next
  case (Cons r rows)
  show ?case
  proof (cases "canalRow now message payload tableName keyField extra r")
    case None
    then show ?thesis by simp
  next
    case (Some effs)
    from canalRow_Some [OF Some] obtain lowered op where
      "effs = [CdcEventsCounterInc tableName lowered,
            LoggerCDCEvent now
              ([(''table_name'', tableName), (''operation_type'', op), (''data'', r),
                (''partition'', JNum (m_partition message)),
                (''offset'', JNum (m_offset message)),
                (''key'', keyField)] @ extra)]" by blast
    with Some Cons show ?thesis
      by (auto simp: field_data_row split: prod.splits)
  qed
qed

lemma canalRows_nth:
  assumes "i < length (cdcEvents (fst (canalRows now message payload tableName keyField extra rows)))"
  shows "i < length rows
     \<and> (\<exists>effs. canalRow now message payload tableName keyField extra (rows ! i) = Some effs
          \<and> cdcEvents effs
              = [cdcEvents (fst (canalRows now message payload tableName keyField extra rows)) ! i]
          \<and> counterIncs effs
              = [counterIncs (fst (canalRows now message payload tableName keyField extra rows)) ! i])"
  using assms
proof (induction rows arbitrary: i)
  case Nil
  then show ?case by simp
next
  case (Cons r rows)
  show ?case
  proof (cases "canalRow now message payload tableName keyField extra r")
    case None
    with Cons.prems show ?thesis by simp
  next
    case (Some effs)
    from canalRow_Some [OF Some] obtain lowered op where effs:
      "effs = [CdcEventsCounterInc tableName lowered,
            LoggerCDCEvent now
              ([(''table_name'', tableName), (''operation_type'', op), (''data'', r),
                (''partition'', JNum (m_partition message)),
                (''offset'', JNum (m_offset message)),
                (''key'', keyField)] @ extra)]" by blast
    obtain rest ok where rest: "canalRows now message payload tableName keyField extra rows = (rest, ok)"
      by (cases "canalRows now message payload tableName keyField extra rows")
    show ?thesis
    proof (cases i)
      case 0
      with Some effs rest show ?thesis by simp
    next
      case (Suc j)
      with Cons.prems Some effs rest
      have "j < length (cdcEvents (fst (canalRows now message payload tableName keyField extra rows)))"
        by simp
      from Cons.IH [OF this] Some effs rest Suc show ?thesis by simp
    qed
  qed
qed

lemma index_canal:
  assumes "m_value message = Some b" and "jsonParse b = Inr payload"
    and "\<not> isNullish payload" and "getProp payload ''data'' = JArr a rows"
  shows "cdcEvents (index_processCDCMessage now message)
           = cdcEvents (fst (canalRows now message payload
                 (js_or (getProp payload ''table'') (JStr ''unknown'')) (keyText message) [] rows))"
    and "counterIncs (index_processCDCMessage now message)
           = counterIncs (fst (canalRows now message payload
                 (js_or (getProp payload ''table'') (JStr ''unknown'')) (keyText message) [] rows))"
  using assms
  by (simp_all add: index_processCDCMessage_def index_processBody_def Let_def errorProcessing_def
        cdcEvents_append counterIncs_append split: prod.splits)

lemma part000_canal:
  assumes "parseValue message = Inr payload" and "\<not> isSimpleProtocol payload"
    and "getProp payload ''data'' = JArr a rows"
  shows "cdcEvents (part000_processCDCMessage now message)
           = cdcEvents (fst (canalRows now message payload (tableNameOf message payload)
                 (messageKeyOf message) [(''protocol'', JStr ''canal-json'')] rows))"
    and "counterIncs (part000_processCDCMessage now message)
           = counterIncs (fst (canalRows now message payload (tableNameOf message payload)
                 (messageKeyOf message) [(''protocol'', JStr ''canal-json'')] rows))"
  using assms
  by (cases "parseKey message" rule: prod_cases3;
      simp add: part000_processCDCMessage_def part000_processBody_def Let_def errorProcessing_def
        cdcEvents_append counterIncs_append tableNameOf_def messageKeyOf_def keyTableName_def
        split: prod.splits)+

lemma parseValue_Inr:
  assumes "m_value message = Some b" and "jsonParse b = Inr payload" and "\<not> isNullish payload"
  shows "parseValue message = Inr payload"
  using assms by (simp add: parseValue_def)

lemma canal_events:
  assumes "canalRows now message payload tableName keyField extra rows
             = (concat (map (rowEffects now message tableName keyField extra s) rows), True)"
    and "cdcEvents effs
           = cdcEvents (fst (canalRows now message payload tableName keyField extra rows))"
    and "counterIncs effs
           = counterIncs (fst (canalRows now message payload tableName keyField extra rows))"
  shows "length (cdcEvents effs) = length rows
     \<and> map (field ''data'') (cdcEvents effs) = rows
     \<and> map (field ''table_name'') (cdcEvents effs) = replicate (length rows) tableName
     \<and> map (field ''operation_type'') (cdcEvents effs) = map (\<lambda>r. JStr (rowOp s r)) rows
     \<and> counterIncs effs = map (\<lambda>r. (tableName, toLowerCase (rowOp s r))) rows"
  by (simp add: assms cdcEvents_rowEffects counterIncs_rowEffects field_def comp_def
        map_replicate_const)

text \<open>
  C4, as the code has it. In the two versions that loop over an array (index.js, and
  part\_000 for a payload that is not simple protocol), a payload whose \<^verbatim>\<open>data\<close> is an array
  of N rows and whose tag is a string \<open>s\<close> (or falsy, then \<open>s\<close> is \<^verbatim>\<open>unknown\<close>) gives exactly N
  events, in the order of the rows, all with the payload's table, each with its own row as
  data. The operation of an event is the tag, except that under the tag INSERT a row whose
  email matches is emitted as UPDATE; under INSERT every row has to be readable.
\<close>

theorem canal_array_one_event_per_row:
  assumes "m_value message = Some b" and "jsonParse b = Inr payload"
    and "\<not> isNullish payload"
    and "getProp payload ''data'' = JArr a rows"
    and "js_or (getProp payload ''type'') (JStr ''unknown'') = JStr s"
    and "s = ''INSERT'' \<longrightarrow> (\<forall>r \<in> set rows. rowReadable r)"
  shows "(length (cdcEvents (index_processCDCMessage now message)) = length rows
       \<and> map (field ''data'') (cdcEvents (index_processCDCMessage now message)) = rows
       \<and> map (field ''table_name'') (cdcEvents (index_processCDCMessage now message))
           = replicate (length rows) (js_or (getProp payload ''table'') (JStr ''unknown''))
       \<and> map (field ''operation_type'') (cdcEvents (index_processCDCMessage now message))
           = map (\<lambda>r. JStr (rowOp s r)) rows
       \<and> counterIncs (index_processCDCMessage now message)
           = map (\<lambda>r. (js_or (getProp payload ''table'') (JStr ''unknown''),
                        toLowerCase (rowOp s r))) rows)
     \<and> (\<not> isSimpleProtocol payload \<longrightarrow>
         length (cdcEvents (part000_processCDCMessage now message)) = length rows
       \<and> map (field ''data'') (cdcEvents (part000_processCDCMessage now message)) = rows
       \<and> map (field ''table_name'') (cdcEvents (part000_processCDCMessage now message))
           = replicate (length rows) (tableNameOf message payload)
       \<and> map (field ''operation_type'') (cdcEvents (part000_processCDCMessage now message))
           = map (\<lambda>r. JStr (rowOp s r)) rows
       \<and> counterIncs (part000_processCDCMessage now message)
           = map (\<lambda>r. (tableNameOf message payload, toLowerCase (rowOp s r))) rows)"
proof (intro conjI impI)
  note ix = index_canal [OF assms(1-4), of now]
  note rd = canalRows_readable [OF assms(5,6)]
  note a = canal_events [OF rd ix]
  show "length (cdcEvents (index_processCDCMessage now message)) = length rows"
    and "map (field ''data'') (cdcEvents (index_processCDCMessage now message)) = rows"
    and "map (field ''table_name'') (cdcEvents (index_processCDCMessage now message))
           = replicate (length rows) (js_or (getProp payload ''table'') (JStr ''unknown''))"
    and "map (field ''operation_type'') (cdcEvents (index_processCDCMessage now message))
           = map (\<lambda>r. JStr (rowOp s r)) rows"
    and "counterIncs (index_processCDCMessage now message)
           = map (\<lambda>r. (js_or (getProp payload ''table'') (JStr ''unknown''),
                        toLowerCase (rowOp s r))) rows"
    using a by simp_all
next
  assume ns: "\<not> isSimpleProtocol payload"
  note p0 = part000_canal [OF parseValue_Inr [OF assms(1-3)] ns assms(4), of now]
  note rd = canalRows_readable [OF assms(5,6)]
  note a = canal_events [OF rd p0]
  show "length (cdcEvents (part000_processCDCMessage now message)) = length rows"
    and "map (field ''data'') (cdcEvents (part000_processCDCMessage now message)) = rows"
    and "map (field ''table_name'') (cdcEvents (part000_processCDCMessage now message))
           = replicate (length rows) (tableNameOf message payload)"
    and "map (field ''operation_type'') (cdcEvents (part000_processCDCMessage now message))
           = map (\<lambda>r. JStr (rowOp s r)) rows"
    and "counterIncs (part000_processCDCMessage now message)
           = map (\<lambda>r. (tableNameOf message payload, toLowerCase (rowOp s r))) rows"
    using a by simp_all
qed

lemmas canal_defs =
  index_processCDCMessage_def index_processBody_def part000_processCDCMessage_def
  part000_processBody_def canalRow_def canalOperationType_def otherFormat_def keyText_def

text \<open>The theorem at an INSERT of two rows, the first with a matching email.\<close>

theorem canal_array_one_event_per_row_witness:
  "m_value canalExample = Some (Buffer ''json''
      (Inr (JObj 1 [(''table'', JStr ''users''), (''type'', JStr ''INSERT''),
                (''data'', JArr 2 [JObj 3 [(''id'', JNum 1), (''email'', JStr ''updated_1@x.com'')],
                                   JObj 4 [(''id'', JNum 2), (''email'', JStr ''b@x.com'')]])])))
   \<and> rowReadable (JObj 3 [(''id'', JNum 1), (''email'', JStr ''updated_1@x.com'')])
   \<and> rowReadable (JObj 4 [(''id'', JNum 2), (''email'', JStr ''b@x.com'')])
   \<and> \<not> isSimpleProtocol (JObj 1 [(''table'', JStr ''users''), (''type'', JStr ''INSERT''),
                (''data'', JArr 2 [JObj 3 [(''id'', JNum 1), (''email'', JStr ''updated_1@x.com'')],
                                   JObj 4 [(''id'', JNum 2), (''email'', JStr ''b@x.com'')]])])
   \<and> map (field ''data'') (cdcEvents (index_processCDCMessage 0 canalExample))
       = [JObj 3 [(''id'', JNum 1), (''email'', JStr ''updated_1@x.com'')],
          JObj 4 [(''id'', JNum 2), (''email'', JStr ''b@x.com'')]]
   \<and> map (field ''data'') (cdcEvents (part000_processCDCMessage 0 canalExample))
       = [JObj 3 [(''id'', JNum 1), (''email'', JStr ''updated_1@x.com'')],
          JObj 4 [(''id'', JNum 2), (''email'', JStr ''b@x.com'')]]
   \<and> counterIncs (index_processCDCMessage 0 canalExample)
       = [(JStr ''users'', ''update''), (JStr ''users'', ''insert'')]"
  using canal_array_one_event_per_row
    [of canalExample
        "Buffer ''json''
          (Inr (JObj 1 [(''table'', JStr ''users''), (''type'', JStr ''INSERT''),
                (''data'', JArr 2 [JObj 3 [(''id'', JNum 1), (''email'', JStr ''updated_1@x.com'')],
                                   JObj 4 [(''id'', JNum 2), (''email'', JStr ''b@x.com'')]])]))"
        "JObj 1 [(''table'', JStr ''users''), (''type'', JStr ''INSERT''),
                (''data'', JArr 2 [JObj 3 [(''id'', JNum 1), (''email'', JStr ''updated_1@x.com'')],
                                   JObj 4 [(''id'', JNum 2), (''email'', JStr ''b@x.com'')]])]"
        2
        "[JObj 3 [(''id'', JNum 1), (''email'', JStr ''updated_1@x.com'')],
          JObj 4 [(''id'', JNum 2), (''email'', JStr ''b@x.com'')]]"
        "''INSERT''" 0]
  by (simp add: canalExample_def jsonMessage_def js_or_def rowReadable_def isSimpleProtocol_def
        rowOp_def toLowerCase_def lowerChar_def)

text \<open>
  C4 as stated gives every event the payload's operation. For an INSERT of two rows, the
  first with the email \<^verbatim>\<open>updated_1@x.com\<close>, index.js emits an UPDATE and an INSERT. The
  split-update version (part\_001) has no loop over the array: it emits one event for the
  two rows.
\<close>

theorem canal_events_do_not_share_the_operation:
  "getProp (JObj 1 [(''table'', JStr ''users''), (''type'', JStr ''INSERT''),
                (''data'', JArr 2 [JObj 3 [(''id'', JNum 1), (''email'', JStr ''updated_1@x.com'')],
                                   JObj 4 [(''id'', JNum 2), (''email'', JStr ''b@x.com'')]])])
      ''type'' = JStr ''INSERT''
   \<and> map (field ''operation_type'') (cdcEvents (index_processCDCMessage 0 canalExample))
       = [JStr ''UPDATE'', JStr ''INSERT'']
   \<and> length (cdcEvents (fst (processCDCMessage 0 canalExample (constructor 0)))) = 1"
  by (simp add: canalExample_def consumer_defs canal_defs)

lemma simple_email_override:
  assumes pv: "parseValue message = Inr payload" and sp: "isSimpleProtocol payload"
    and ty: "getProp payload ''type'' = JNum 0"
    and em: "getProp (getProp payload ''data'') ''email'' = JStr e"
    and hit: "strIncludes e ''updated_'' \<or> strIncludes e ''mass_update_''"
  shows "counterIncs (fst (processCDCMessage now message c))
          = [(getProp payload ''table'', ''update'')]
      \<and> map (field ''operation_type'') (cdcEvents (fst (processCDCMessage now message c)))
          = [JStr ''UPDATE'']
      \<and> map (field ''data'') (cdcEvents (fst (processCDCMessage now message c)))
          = [getProp payload ''data'']"
proof -
  have ne: "e \<noteq> []" using hit by (auto dest: strIncludes_nonempty)
  have tr: "truthy (getProp payload ''data'')"
    using em by (cases "getProp payload ''data''") auto
  have tb: "truthy (getProp payload ''table'')"
    using sp by (simp add: isSimpleProtocol_def)
  have d: "simpleData (simpleOperationType payload) payload = getProp payload ''data''"
    by (simp add: simpleOperationType_def simpleData_def ty tr)
  have eo: "emailOverride (simpleOperationType payload) (getProp payload ''data'')
              = Some ''UPDATE''"
    using hit ne
    by (auto simp: emailOverride_def simpleOperationType_def ty em split: bool.splits)
  have p: "processCDCMessage now message c =
          (the (simplePath now message payload (messageKeyOf message) (keyTableName message)
                  (snd (snd (parseKey message)))), c)"
    by (simp add: processCDCMessage_def processBody_unfold pv sp simplePath_def d eo Let_def)
  show ?thesis
    using tb
    by (simp add: p simplePath_def d eo Let_def field_def js_or_def toLowerCase_def
          lowerChar_def)
qed

lemma part000_simple_email_override:
  assumes pv: "parseValue message = Inr payload" and sp: "isSimpleProtocol payload"
    and ty: "getProp payload ''type'' = JNum 0"
    and em: "getProp (getProp payload ''data'') ''email'' = JStr e"
    and hit: "strIncludes e ''updated_'' \<or> strIncludes e ''mass_update_''"
  shows "counterIncs (part000_processCDCMessage now message)
          = [(getProp payload ''table'', ''update'')]
      \<and> map (field ''operation_type'') (cdcEvents (part000_processCDCMessage now message))
          = [JStr ''UPDATE'']
      \<and> map (field ''data'') (cdcEvents (part000_processCDCMessage now message))
          = [getProp payload ''data'']"
proof -
  have ne: "e \<noteq> []" using hit by (auto dest: strIncludes_nonempty)
  have tr: "truthy (getProp payload ''data'')"
    using em by (cases "getProp payload ''data''") auto
  have tb: "truthy (getProp payload ''table'')"
    using sp by (simp add: isSimpleProtocol_def)
  have d: "simpleData (simpleOperationType payload) payload = getProp payload ''data''"
    by (simp add: simpleOperationType_def simpleData_def ty tr)
  have eo: "emailOverride (simpleOperationType payload) (getProp payload ''data'')
              = Some ''UPDATE''"
    using hit ne
    by (auto simp: emailOverride_def simpleOperationType_def ty em split: bool.splits)
  have p: "part000_processCDCMessage now message =
          the (simplePath now message payload (messageKeyOf message) (keyTableName message)
                 (snd (snd (parseKey message))))"
    by (cases "parseKey message" rule: prod_cases3)
       (simp add: part000_processCDCMessage_def part000_processBody_def pv sp simplePath_def d eo
          Let_def messageKeyOf_def keyTableName_def)
  show ?thesis
    using tb
    by (simp add: p simplePath_def d eo Let_def field_def js_or_def toLowerCase_def
          lowerChar_def)
qed

text \<open>
  In the loop over an INSERT's rows, a row with a matching email that comes after readable
  rows is emitted, in its place, as an UPDATE.
\<close>

lemma canalRows_email_override:
  assumes tag: "js_or (getProp payload ''type'') (JStr ''unknown'') = JStr ''INSERT''"
    and i: "i < length rows"
    and em: "getProp (rows ! i) ''email'' = JStr e"
    and hit: "strIncludes e ''updated_'' \<or> strIncludes e ''mass_update_''"
    and pre: "\<forall>r \<in> set (take i rows). rowReadable r"
    and ev: "cdcEvents effs
           = cdcEvents (fst (canalRows now message payload tableName keyField extra rows))"
    and co: "counterIncs effs
           = counterIncs (fst (canalRows now message payload tableName keyField extra rows))"
  shows "map (field ''data'') (cdcEvents effs) = take (length (cdcEvents effs)) rows
     \<and> i < length (cdcEvents effs)
     \<and> field ''operation_type'' (cdcEvents effs ! i) = JStr ''UPDATE''
     \<and> field ''data'' (cdcEvents effs ! i) = rows ! i
     \<and> counterIncs effs ! i = (tableName, ''update'')"
proof -
  let ?run = "canalRows now message payload tableName keyField extra"
  let ?row = "rowEffects now message tableName keyField extra ''INSERT''"
  have ne: "e \<noteq> []" using hit by (auto dest: strIncludes_nonempty)
  have rdi: "rowReadable (rows ! i)"
    using em ne by (cases "rows ! i") (auto simp: rowReadable_def)
  have op: "rowOp ''INSERT'' (rows ! i) = ''UPDATE''"
    using hit by (auto simp: rowOp_def em)
  have b: "canalRow now message payload tableName keyField extra (rows ! i) = Some (?row (rows ! i))"
    using rdi by (intro canalRow_readable [OF tag]) simp
  have A: "map (field ''data'') (cdcEvents effs) = take (length (cdcEvents effs)) rows"
    unfolding ev by (rule canalRows_prefix)
  have C: "i < length (cdcEvents effs)"
  proof -
    have rows: "rows = take i rows @ (rows ! i) # drop (Suc i) rows"
      using i by (simp add: id_take_nth_drop)
    have a: "?run (take i rows) = (concat (map ?row (take i rows)), True)"
      using pre by (intro canalRows_readable [OF tag]) simp
    obtain rest ok where r: "?run (drop (Suc i) rows) = (rest, ok)"
      by (cases "?run (drop (Suc i) rows)")
    have "?run rows = ?run (take i rows @ (rows ! i) # drop (Suc i) rows)"
      using rows by simp
    also have "\<dots> = (concat (map ?row (take i rows)) @ ?row (rows ! i) @ rest, ok)"
      by (simp add: canalRows_append a b r)
    finally have whole: "?run rows = (concat (map ?row (take i rows)) @ ?row (rows ! i) @ rest, ok)" .
    show ?thesis
      using i
      by (simp add: ev whole cdcEvents_append cdcEvents_rowEffects)
         (simp add: rowEffects_def)
  qed
  have B: "field ''operation_type'' (cdcEvents effs ! i) = JStr ''UPDATE''
         \<and> field ''data'' (cdcEvents effs ! i) = rows ! i
         \<and> counterIncs effs ! i = (tableName, ''update'')"
  proof -
    from C have "i < length (cdcEvents (fst (?run rows)))" by (simp add: ev)
    from canalRows_nth [OF this] b
    have "cdcEvents (?row (rows ! i)) = [cdcEvents effs ! i]"
      and "counterIncs (?row (rows ! i)) = [counterIncs effs ! i]"
      by (auto simp: ev co)
    then have "cdcEvents effs ! i
            = (now, [(''table_name'', tableName), (''operation_type'', JStr ''UPDATE''),
                  (''data'', rows ! i), (''partition'', JNum (m_partition message)),
                  (''offset'', JNum (m_offset message)), (''key'', keyField)] @ extra)"
      and "counterIncs effs ! i = (tableName, ''update'')"
      by (simp_all add: rowEffects_def op toLowerCase_def lowerChar_def)
    then show ?thesis
      by (simp add: field_def)
  qed
  from A B C show ?thesis by blast
qed

lemma canal_email_override:
  assumes mv: "m_value message' = Some b" and jp: "jsonParse b = Inr payload'"
    and nn: "\<not> isNullish payload'" and da: "getProp payload' ''data'' = JArr a rows"
    and ty: "getProp payload' ''type'' = JStr ''INSERT''" and i: "i < length rows"
    and em: "getProp (rows ! i) ''email'' = JStr e'"
    and hit: "strIncludes e' ''updated_'' \<or> strIncludes e' ''mass_update_''"
    and pre: "\<forall>r \<in> set (take i rows). rowReadable r"
  shows "(map (field ''data'') (cdcEvents (index_processCDCMessage now' message'))
            = take (length (cdcEvents (index_processCDCMessage now' message'))) rows
        \<and> i < length (cdcEvents (index_processCDCMessage now' message'))
        \<and> field ''operation_type'' (cdcEvents (index_processCDCMessage now' message') ! i)
            = JStr ''UPDATE''
        \<and> field ''data'' (cdcEvents (index_processCDCMessage now' message') ! i) = rows ! i
        \<and> counterIncs (index_processCDCMessage now' message') ! i
            = (js_or (getProp payload' ''table'') (JStr ''unknown''), ''update''))
      \<and> (\<not> isSimpleProtocol payload' \<longrightarrow>
          map (field ''data'') (cdcEvents (part000_processCDCMessage now' message'))
            = take (length (cdcEvents (part000_processCDCMessage now' message'))) rows
        \<and> i < length (cdcEvents (part000_processCDCMessage now' message'))
        \<and> field ''operation_type'' (cdcEvents (part000_processCDCMessage now' message') ! i)
            = JStr ''UPDATE''
        \<and> field ''data'' (cdcEvents (part000_processCDCMessage now' message') ! i) = rows ! i
        \<and> counterIncs (part000_processCDCMessage now' message') ! i
            = (tableNameOf message' payload', ''update''))"
proof (rule conjI)
  have tag: "js_or (getProp payload' ''type'') (JStr ''unknown'') = JStr ''INSERT''"
    by (simp add: ty js_or_def)
  note ix = index_canal [OF mv jp nn da, of now']
  show "map (field ''data'') (cdcEvents (index_processCDCMessage now' message'))
            = take (length (cdcEvents (index_processCDCMessage now' message'))) rows
        \<and> i < length (cdcEvents (index_processCDCMessage now' message'))
        \<and> field ''operation_type'' (cdcEvents (index_processCDCMessage now' message') ! i)
            = JStr ''UPDATE''
        \<and> field ''data'' (cdcEvents (index_processCDCMessage now' message') ! i) = rows ! i
        \<and> counterIncs (index_processCDCMessage now' message') ! i
            = (js_or (getProp payload' ''table'') (JStr ''unknown''), ''update'')"
    by (rule canalRows_email_override [OF tag i em hit pre ix])
  show "\<not> isSimpleProtocol payload' \<longrightarrow>
          map (field ''data'') (cdcEvents (part000_processCDCMessage now' message'))
            = take (length (cdcEvents (part000_processCDCMessage now' message'))) rows
        \<and> i < length (cdcEvents (part000_processCDCMessage now' message'))
        \<and> field ''operation_type'' (cdcEvents (part000_processCDCMessage now' message') ! i)
            = JStr ''UPDATE''
        \<and> field ''data'' (cdcEvents (part000_processCDCMessage now' message') ! i) = rows ! i
        \<and> counterIncs (part000_processCDCMessage now' message') ! i
            = (tableNameOf message' payload', ''update'')"
  proof
    assume ns: "\<not> isSimpleProtocol payload'"
    note p0 = part000_canal [OF parseValue_Inr [OF mv jp nn] ns da, of now']
    show "map (field ''data'') (cdcEvents (part000_processCDCMessage now' message'))
            = take (length (cdcEvents (part000_processCDCMessage now' message'))) rows
        \<and> i < length (cdcEvents (part000_processCDCMessage now' message'))
        \<and> field ''operation_type'' (cdcEvents (part000_processCDCMessage now' message') ! i)
            = JStr ''UPDATE''
        \<and> field ''data'' (cdcEvents (part000_processCDCMessage now' message') ! i) = rows ! i
        \<and> counterIncs (part000_processCDCMessage now' message') ! i
            = (tableNameOf message' payload', ''update'')"
      by (rule canalRows_email_override [OF tag i em hit pre p0])
  qed
qed

lemma both_simple_email_override:
  assumes "parseValue message = Inr payload" and "isSimpleProtocol payload"
    and "getProp payload ''type'' = JNum 0"
    and "getProp (getProp payload ''data'') ''email'' = JStr e"
    and "strIncludes e ''updated_'' \<or> strIncludes e ''mass_update_''"
  shows "(counterIncs (fst (processCDCMessage now message c))
            = [(getProp payload ''table'', ''update'')]
        \<and> map (field ''operation_type'') (cdcEvents (fst (processCDCMessage now message c)))
            = [JStr ''UPDATE'']
        \<and> map (field ''data'') (cdcEvents (fst (processCDCMessage now message c)))
            = [getProp payload ''data''])
      \<and> (counterIncs (part000_processCDCMessage now message)
            = [(getProp payload ''table'', ''update'')]
        \<and> map (field ''operation_type'') (cdcEvents (part000_processCDCMessage now message))
            = [JStr ''UPDATE'']
        \<and> map (field ''data'') (cdcEvents (part000_processCDCMessage now message))
            = [getProp payload ''data''])"
  using simple_email_override [OF assms] part000_simple_email_override [OF assms] by blast

text \<open>
  C7, as the code has it. The versions with a simple-protocol path (part\_001 and
  part\_000): an INSERT of the simple protocol (type 0) whose row's email is a string
  containing \<^verbatim>\<open>updated_\<close> or \<^verbatim>\<open>mass_update_\<close> gives exactly one event, an UPDATE carrying the
  row, counted as \<^verbatim>\<open>update\<close>. The versions with a loop over the rows (index.js, and part\_000
  for a payload that is not simple protocol): under the tag INSERT the events are those of a
  prefix of the rows, one for each and in their order, so no row is emitted twice; when the
  email of row \<open>i\<close> is such a string and every row before it is readable (not \<^verbatim>\<open>null\<close>, its
  email falsy or a string), the event of row \<open>i\<close> is emitted, in place \<open>i\<close>, as an UPDATE
  carrying that row and is counted as \<^verbatim>\<open>update\<close>, whatever the rows after it are.
\<close>

theorem email_pattern_reclassifies_insert:
  "(parseValue message = Inr payload
      \<and> isSimpleProtocol payload
      \<and> getProp payload ''type'' = JNum 0
      \<and> getProp (getProp payload ''data'') ''email'' = JStr e
      \<and> (strIncludes e ''updated_'' \<or> strIncludes e ''mass_update_'')
    \<longrightarrow> (counterIncs (fst (processCDCMessage now message c))
            = [(getProp payload ''table'', ''update'')]
        \<and> map (field ''operation_type'') (cdcEvents (fst (processCDCMessage now message c)))
            = [JStr ''UPDATE'']
        \<and> map (field ''data'') (cdcEvents (fst (processCDCMessage now message c)))
            = [getProp payload ''data''])
      \<and> (counterIncs (part000_processCDCMessage now message)
            = [(getProp payload ''table'', ''update'')]
        \<and> map (field ''operation_type'') (cdcEvents (part000_processCDCMessage now message))
            = [JStr ''UPDATE'']
        \<and> map (field ''data'') (cdcEvents (part000_processCDCMessage now message))
            = [getProp payload ''data'']))
   \<and> (m_value message' = Some b \<and> jsonParse b = Inr payload'
      \<and> \<not> isNullish payload'
      \<and> getProp payload' ''data'' = JArr a rows
      \<and> getProp payload' ''type'' = JStr ''INSERT''
      \<and> i < length rows
      \<and> getProp (rows ! i) ''email'' = JStr e'
      \<and> (strIncludes e' ''updated_'' \<or> strIncludes e' ''mass_update_'')
      \<and> (\<forall>r \<in> set (take i rows). rowReadable r)
    \<longrightarrow> (map (field ''data'') (cdcEvents (index_processCDCMessage now' message'))
            = take (length (cdcEvents (index_processCDCMessage now' message'))) rows
        \<and> i < length (cdcEvents (index_processCDCMessage now' message'))
        \<and> field ''operation_type'' (cdcEvents (index_processCDCMessage now' message') ! i)
            = JStr ''UPDATE''
        \<and> field ''data'' (cdcEvents (index_processCDCMessage now' message') ! i) = rows ! i
        \<and> counterIncs (index_processCDCMessage now' message') ! i
            = (js_or (getProp payload' ''table'') (JStr ''unknown''), ''update''))
      \<and> (\<not> isSimpleProtocol payload' \<longrightarrow>
          map (field ''data'') (cdcEvents (part000_processCDCMessage now' message'))
            = take (length (cdcEvents (part000_processCDCMessage now' message'))) rows
        \<and> i < length (cdcEvents (part000_processCDCMessage now' message'))
        \<and> field ''operation_type'' (cdcEvents (part000_processCDCMessage now' message') ! i)
            = JStr ''UPDATE''
        \<and> field ''data'' (cdcEvents (part000_processCDCMessage now' message') ! i) = rows ! i
        \<and> counterIncs (part000_processCDCMessage now' message') ! i
            = (tableNameOf message' payload', ''update'')))"
  by (rule conjI; rule impI; elim conjE)
     (rule both_simple_email_override canal_email_override; assumption)+

text \<open>
  The theorem at a simple-protocol INSERT and at the second row of an array whose first row
  is readable.
\<close>

theorem email_pattern_reclassifies_insert_witness:
  "parseValue simpleUpdatedExample
     = Inr (JObj 1 [(''schema'', JStr ''testdb''), (''table'', JStr ''users''),
                    (''type'', JNum 0),
                    (''data'', JObj 2 [(''id'', JNum 42), (''email'', JStr ''updated_42@x.com'')])])
   \<and> strIncludes ''updated_42@x.com'' ''updated_''
   \<and> map (field ''operation_type'')
        (cdcEvents (fst (processCDCMessage 0 simpleUpdatedExample (constructor 0))))
       = [JStr ''UPDATE'']
   \<and> counterIncs (fst (processCDCMessage 0 simpleUpdatedExample (constructor 0)))
       = [(JStr ''users'', ''update'')]
   \<and> map (field ''operation_type'') (cdcEvents (part000_processCDCMessage 0 simpleUpdatedExample))
       = [JStr ''UPDATE'']
   \<and> m_value secondRowExample = Some (Buffer ''json'' (Inr secondRowPayload))
   \<and> \<not> isSimpleProtocol secondRowPayload
   \<and> strIncludes ''updated_2@x.com'' ''updated_''
   \<and> rowReadable (JObj 3 [(''id'', JNum 1), (''email'', JStr ''a@x.com'')])
   \<and> 1 < length (cdcEvents (index_processCDCMessage 0 secondRowExample))
   \<and> field ''operation_type'' (cdcEvents (index_processCDCMessage 0 secondRowExample) ! 1)
       = JStr ''UPDATE''
   \<and> counterIncs (index_processCDCMessage 0 secondRowExample) ! 1 = (JStr ''users'', ''update'')
   \<and> field ''operation_type'' (cdcEvents (part000_processCDCMessage 0 secondRowExample) ! 1)
       = JStr ''UPDATE''"
  using email_pattern_reclassifies_insert
    [of simpleUpdatedExample
        "JObj 1 [(''schema'', JStr ''testdb''), (''table'', JStr ''users''),
                 (''type'', JNum 0),
                 (''data'', JObj 2 [(''id'', JNum 42), (''email'', JStr ''updated_42@x.com'')])]"
        "''updated_42@x.com''" 0 "constructor 0"
        secondRowExample
        "Buffer ''json'' (Inr secondRowPayload)"
        secondRowPayload
        2
        "[JObj 3 [(''id'', JNum 1), (''email'', JStr ''a@x.com'')],
          JObj 4 [(''id'', JNum 2), (''email'', JStr ''updated_2@x.com'')]]"
        1 "''updated_2@x.com''" 0]
  by (simp add: simpleUpdatedExample_def secondRowExample_def secondRowPayload_def
        jsonMessage_def parseValue_def isSimpleProtocol_def js_or_def rowReadable_def)

text \<open>
  C7 as stated gives every row with a matching email its one UPDATE event. In index.js, for
  an INSERT whose rows are \<^verbatim>\<open>null\<close> and a row with the email \<^verbatim>\<open>updated_2@x.com\<close>, the first
  turn of the loop throws at \<^verbatim>\<open>row.email\<close> and no event is emitted for the second row. And the
  split-update version (part\_001) does not loop over an array: for an INSERT of two rows,
  the first with the email \<^verbatim>\<open>updated_1@x.com\<close>, it emits one INSERT.
\<close>

theorem matching_row_after_null_row_is_not_emitted:
  "getProp (elements (getProp (JObj 1 [(''table'', JStr ''users''), (''type'', JStr ''INSERT''),
                (''data'', JArr 2 [JNull,
                    JObj 4 [(''id'', JNum 2), (''email'', JStr ''updated_2@x.com'')]])]) ''data'') ! 1)
      ''email'' = JStr ''updated_2@x.com''
   \<and> strIncludes ''updated_2@x.com'' ''updated_''
   \<and> cdcEvents (index_processCDCMessage 0 nullRowExample) = []
   \<and> counterIncs (index_processCDCMessage 0 nullRowExample) = []
   \<and> map (field ''operation_type'') (cdcEvents (fst (processCDCMessage 0 canalExample (constructor 0))))
       = [JStr ''INSERT'']
   \<and> counterIncs (fst (processCDCMessage 0 canalExample (constructor 0)))
       = [(JStr ''users'', ''insert'')]"
  by (simp add: nullRowExample_def canalExample_def consumer_defs canal_defs)

section \<open>Pending deletes: claim by deletion\<close>

lemma isControl_DELETE [simp]: "getProp payload ''type'' = JStr ''DELETE'' \<Longrightarrow> \<not> isControl payload"
  by (simp add: isControl_def)

lemma isControl_INSERT [simp]: "getProp payload ''type'' = JStr ''INSERT'' \<Longrightarrow> \<not> isControl payload"
  by (simp add: isControl_def)

lemma process_trackedDelete:
  assumes "trackedDelete d pd k"
  shows "processCDCMessage t d c =
           ([LoggerInfo ''Tracking DELETE for potential UPDATE detection''
               [(''table'', tableNameOf d pd),
                (''recordId'', extractRecordId (getProp pd ''old'')),
                (''commitTs'', getProp pd ''commitTs'')],
             KafkaMessagesTotalInc,
             CdcProcessingDuration (tableNameOf d pd) (JStr ''delete'')],
            c\<lparr> recentDeletes := AList.update k (infoFor t pd) (recentDeletes c),
               timeouts := timeouts c @ [taskFor t d pd k] \<rparr>)"
  using assms
  by (simp add: trackedDelete_def extractableDelete_def processCDCMessage_def processBody_unfold
        splitPath_def trackDelete_def Let_def js_or_def tableNameOf_def infoFor_def
        taskFor_def correlationWindowMs_def)

lemma process_key_throws:
  assumes "extractableDelete d pd"
    and "deleteKeyOf (tableNameOf d pd) (extractRecordId (getProp pd ''old'')) = None"
  shows "processCDCMessage t d c = (errorProcessing, c)"
  using assms
  by (simp add: extractableDelete_def processCDCMessage_def processBody_unfold
        splitPath_def Let_def js_or_def tableNameOf_def)





lemma map_of_delete_same [simp]: "map_of (AList.delete k m) k = None"
  by (simp add: AList.delete_conv')

lemma map_of_update_same [simp]: "map_of (AList.update k v m) k = Some v"
  by (simp add: AList.update_conv')

lemma map_of_delete_other: "k \<noteq> k' \<Longrightarrow> map_of (AList.delete k' m) k = map_of m k"
  by (simp add: AList.delete_conv')



lemma sweepEntries_map_of:
  "map_of (sweepEntries now es m) k = None \<or> map_of (sweepEntries now es m) k = map_of m k"
proof (induction es arbitrary: m)
  case Nil
  then show ?case by simp
next
  case (Cons e es)
  obtain k' v where e: "e = (k', v)" by (cases e)
  show ?case
  proof (cases "now - timestamp v > stalenessMs")
    case False
    with Cons.IH [of m] show ?thesis by (simp add: e)
  next
    case True
    from Cons.IH [of "AList.delete k' m"] True show ?thesis
      by (cases "k = k'") (auto simp: e map_of_delete_other)
  qed
qed

lemma sweepEntries_absent:
  "map_of m k = None \<Longrightarrow> map_of (sweepEntries now es m) k = None"
  using sweepEntries_map_of [of now es m k] by auto

lemma step_Interval_effects [simp]: "fst (step now Interval c) = []"
  by (simp add: step_def sweep_def)

lemma step_Interval_absent:
  "map_of (recentDeletes c) k = None \<Longrightarrow> map_of (recentDeletes (snd (step now Interval c))) k = None"
  by (simp add: step_def sweep_def sweepEntries_absent)

lemma run2:
  assumes "step t1 e1 c = (E1, c1)" and "step t2 e2 c1 = (E2, c2)"
  shows "run [(t1, e1), (t2, e2)] c = (E1 @ E2, c2)"
  using assms by simp

lemma run3:
  assumes "step t1 e1 c = (E1, c1)" and "step t2 e2 c1 = (E2, c2)" and "step t3 e3 c2 = (E3, c3)"
  shows "run [(t1, e1), (t2, e2), (t3, e3)] c = (E1 @ E2 @ E3, c3)"
  using assms by simp

lemma snd_run_Cons:
  "snd (run ((now, ev) # evs) c) = snd (run evs (snd (step now ev c)))"
  by (simp split: prod.splits)

lemma fst_run_Cons:
  "fst (run ((now, ev) # evs) c) = fst (step now ev c) @ fst (run evs (snd (step now ev c)))"
  by (simp split: prod.splits)

text \<open>What one message does to the map: nothing, one \<^verbatim>\<open>set\<close> for a tracked DELETE, or one \<^verbatim>\<open>delete\<close>.\<close>

lemma splitPath_store:
  assumes "splitPath now message payload messageKey tableName0 c = Some (effs, c')"
  shows "recentDeletes c' = recentDeletes c
     \<or> (\<exists>k. getProp payload ''type'' = JStr ''DELETE'' \<and> truthy (getProp payload ''old'')
        \<and> extractRecordId (getProp payload ''old'') \<noteq> JNull
        \<and> deleteKeyOf (js_or (getProp payload ''table'') tableName0)
             (extractRecordId (getProp payload ''old'')) = Some k
        \<and> recentDeletes c'
            = AList.update k
                \<lparr> commitTs = getProp payload ''commitTs'', timestamp = now,
                  data = getProp payload ''old'' \<rparr>
                (recentDeletes c))
     \<or> (\<exists>k. recentDeletes c' = AList.delete k (recentDeletes c))"
  using assms
  by (auto simp: splitPath_def Let_def trackDelete_def detectedUpdate_def js_or_def
        split: if_splits option.splits)

lemma processCDCMessage_store:
  "recentDeletes (snd (processCDCMessage now message c)) = recentDeletes c
     \<or> (\<exists>payload k. parseValue message = Inr payload \<and> trackedDelete message payload k
          \<and> recentDeletes (snd (processCDCMessage now message c))
              = AList.update k (infoFor now payload) (recentDeletes c))
     \<or> (\<exists>k. recentDeletes (snd (processCDCMessage now message c)) = AList.delete k (recentDeletes c))"
proof (cases "processBody now message c")
  case None
  then show ?thesis by (simp add: processCDCMessage_def)
next
  case (Some r)
  obtain effs c' where r: "r = (effs, c')" by (cases r)
  have p: "processCDCMessage now message c = (effs, c')"
    using Some r by (simp add: processCDCMessage_def)
  show ?thesis
  proof (cases "parseValue message")
    case (Inl e)
    with Some r have "c' = c" by (auto simp: processBody_unfold)
    then show ?thesis by (simp add: p)
  next
    case (Inr payload)
    show ?thesis
    proof (cases "isSimpleProtocol payload \<or> isControl payload")
      case True
      with Some r Inr have "c' = c"
        by (auto simp: processBody_unfold split: option.splits if_splits)
      then show ?thesis by (simp add: p)
    next
      case False
      with Some r Inr
      have sp: "splitPath now message payload (messageKeyOf message) (keyTableName message) c
                  = Some (effs, c')"
        by (simp add: processBody_unfold)
      from splitPath_store [OF sp] False Inr show ?thesis
        by (auto simp: p trackedDelete_def extractableDelete_def tableNameOf_def infoFor_def)
    qed
  qed
qed

lemma finalize_store:
  "recentDeletes (snd (finalize now task c)) = recentDeletes c
     \<or> recentDeletes (snd (finalize now task c)) = AList.delete (t_deleteKey task) (recentDeletes c)"
  by (auto simp: finalize_def split: option.splits)













lemma finalize_due:
  assumes "n < length (timeouts s)" and "timeouts s ! n = taskFor t1 d pd k" and "t1 + 500 \<le> now"
    and "map_of (recentDeletes s) k = Some info"
    and "strictEquals (commitTs info) (getProp pd ''commitTs'')"
  shows "step now (Timeout n) s
      = ([CdcEventsCounterInc (tableNameOf d pd) ''delete'',
          LoggerCDCEvent (fst (deleteEvent now d pd)) (snd (deleteEvent now d pd))],
         s\<lparr> timeouts := take n (timeouts s) @ drop (Suc n) (timeouts s),
            recentDeletes := AList.delete k (recentDeletes s) \<rparr>)"
  using assms by (simp add: step_def finalize_def taskFor_def deleteEvent_def)

text \<open>
  C3. A DELETE of the split-update path with an extractable record identity. When its table
  or its record id does not convert to a string, the message ends in the outer \<^verbatim>\<open>catch\<close>:
  nothing is tracked and no finalize callback is scheduled. Otherwise it is tracked under its
  key \<open>k\<close>, emits nothing then, and its finalize callback is scheduled for \<open>t1 + 500\<close>.
  Whenever that callback runs (not before \<open>t1 + 500\<close>) in a state where the entry under \<open>k\<close> is
  still there with a commitTs \<^verbatim>\<open>===\<close> to its own, it emits exactly one DELETE event, counted
  once under \<^verbatim>\<open>delete\<close>, and removes the entry; a sweep after it emits nothing. In particular
  this is so when nothing else is processed in between; and before \<open>t1 + 500\<close> the callback
  does not run.
\<close>

theorem unmatched_delete_is_finalized_once:
  assumes "extractableDelete d pd"
  shows "(deleteKeyOf (tableNameOf d pd) (extractRecordId (getProp pd ''old'')) = None
          \<longrightarrow> processCDCMessage t1 d c = (errorProcessing, c))
     \<and> (deleteKeyOf (tableNameOf d pd) (extractRecordId (getProp pd ''old'')) = Some k
          \<longrightarrow> counterIncs (fst (processCDCMessage t1 d c)) = []
            \<and> cdcEvents (fst (processCDCMessage t1 d c)) = []
            \<and> map_of (recentDeletes (snd (processCDCMessage t1 d c))) k = Some (infoFor t1 pd)
            \<and> timeouts (snd (processCDCMessage t1 d c)) = timeouts c @ [taskFor t1 d pd k]
            \<and> (t1 + 500 \<le> t2 \<longrightarrow>
                  counterIncs (fst (run [(t1, Deliver d), (t2, Timeout (length (timeouts c))),
                                         (t3, Interval)] c)) = [(tableNameOf d pd, ''delete'')]
                \<and> cdcEvents (fst (run [(t1, Deliver d), (t2, Timeout (length (timeouts c))),
                                       (t3, Interval)] c)) = [deleteEvent t2 d pd]
                \<and> map_of (recentDeletes (snd (run [(t1, Deliver d),
                                                    (t2, Timeout (length (timeouts c))),
                                                    (t3, Interval)] c))) k = None)
            \<and> (t2 < t1 + 500 \<longrightarrow>
                  run [(t1, Deliver d), (t2, Timeout (length (timeouts c)))] c
                    = run [(t1, Deliver d)] c)
            \<and> (\<forall>s n now info now'.
                  n < length (timeouts s) \<and> timeouts s ! n = taskFor t1 d pd k \<and> t1 + 500 \<le> now
                  \<and> map_of (recentDeletes s) k = Some info
                  \<and> strictEquals (commitTs info) (getProp pd ''commitTs'')
                \<longrightarrow> fst (step now (Timeout n) s)
                      = [CdcEventsCounterInc (tableNameOf d pd) ''delete'',
                         LoggerCDCEvent (fst (deleteEvent now d pd)) (snd (deleteEvent now d pd))]
                  \<and> map_of (recentDeletes (snd (step now (Timeout n) s))) k = None
                  \<and> length (timeouts (snd (step now (Timeout n) s))) < length (timeouts s)
                  \<and> fst (step now' Interval (snd (step now (Timeout n) s))) = []))"
proof (rule conjI; rule impI)
  assume "deleteKeyOf (tableNameOf d pd) (extractRecordId (getProp pd ''old'')) = None"
  with assms show "processCDCMessage t1 d c = (errorProcessing, c)"
    by (rule process_key_throws)
next
  assume key: "deleteKeyOf (tableNameOf d pd) (extractRecordId (getProp pd ''old'')) = Some k"
  with assms have td: "trackedDelete d pd k"
    by (simp add: trackedDelete_def)
  let ?n = "length (timeouts c)"
  define c1 where "c1 = c\<lparr> recentDeletes := AList.update k (infoFor t1 pd) (recentDeletes c),
                            timeouts := timeouts c @ [taskFor t1 d pd k] \<rparr>"
  note p = process_trackedDelete [OF td, of t1 c]
  have s1: "step t1 (Deliver d) c = (fst (processCDCMessage t1 d c), c1)"
    using p by (simp add: step_def c1_def)
  have e1: "counterIncs (fst (processCDCMessage t1 d c)) = []"
    "cdcEvents (fst (processCDCMessage t1 d c)) = []"
    using p by simp_all
  have st1: "map_of (recentDeletes (snd (processCDCMessage t1 d c))) k = Some (infoFor t1 pd)"
    "timeouts (snd (processCDCMessage t1 d c)) = timeouts c @ [taskFor t1 d pd k]"
    using p by simp_all
  have due: "counterIncs (fst (run [(t1, Deliver d), (t2, Timeout ?n), (t3, Interval)] c))
                = [(tableNameOf d pd, ''delete'')]
           \<and> cdcEvents (fst (run [(t1, Deliver d), (t2, Timeout ?n), (t3, Interval)] c))
                = [deleteEvent t2 d pd]
           \<and> map_of (recentDeletes (snd (run [(t1, Deliver d), (t2, Timeout ?n),
                                               (t3, Interval)] c))) k = None"
    if d: "t1 + 500 \<le> t2"
  proof -
    define c2 where "c2 = c\<lparr> recentDeletes := AList.delete k (recentDeletes c1) \<rparr>"
    have s2: "step t2 (Timeout ?n) c1
        = ([CdcEventsCounterInc (tableNameOf d pd) ''delete'',
            LoggerCDCEvent (fst (deleteEvent t2 d pd)) (snd (deleteEvent t2 d pd))], c2)"
      using d
      by (simp add: step_def c1_def c2_def finalize_def taskFor_def infoFor_def deleteEvent_def)
    have s3: "step t3 Interval c2 = ([], snd (step t3 Interval c2))"
      by (simp add: prod_eq_iff)
    note r = run3 [OF s1 s2 s3]
    have gone: "map_of (recentDeletes c2) k = None"
      by (simp add: c2_def)
    have 1: "counterIncs (fst (run [(t1, Deliver d), (t2, Timeout ?n), (t3, Interval)] c))
            = [(tableNameOf d pd, ''delete'')]"
      by (subst r) (simp add: counterIncs_append e1)
    have 2: "cdcEvents (fst (run [(t1, Deliver d), (t2, Timeout ?n), (t3, Interval)] c))
            = [deleteEvent t2 d pd]"
      by (subst r) (simp add: cdcEvents_append e1)
    have 3: "map_of (recentDeletes (snd (run [(t1, Deliver d), (t2, Timeout ?n), (t3, Interval)] c))) k
            = None"
      using step_Interval_absent [OF gone] by (subst r) simp
    from 1 2 3 show ?thesis by blast
  qed
  have early: "run [(t1, Deliver d), (t2, Timeout ?n)] c = run [(t1, Deliver d)] c"
    if e: "t2 < t1 + 500"
  proof -
    have s2: "step t2 (Timeout ?n) c1 = ([], c1)"
      using e by (simp add: step_def c1_def taskFor_def)
    show ?thesis
      using run2 [OF s1 s2] s1 by simp
  qed
  have general: "fst (step now (Timeout n) s)
                      = [CdcEventsCounterInc (tableNameOf d pd) ''delete'',
                         LoggerCDCEvent (fst (deleteEvent now d pd)) (snd (deleteEvent now d pd))]
                  \<and> map_of (recentDeletes (snd (step now (Timeout n) s))) k = None
                  \<and> length (timeouts (snd (step now (Timeout n) s))) < length (timeouts s)
                  \<and> fst (step now' Interval (snd (step now (Timeout n) s))) = []"
    if a: "n < length (timeouts s) \<and> timeouts s ! n = taskFor t1 d pd k \<and> t1 + 500 \<le> now
            \<and> map_of (recentDeletes s) k = Some info
            \<and> strictEquals (commitTs info) (getProp pd ''commitTs'')"
    for s :: consumer and n now info now'
  proof -
    from a have a': "n < length (timeouts s)" "timeouts s ! n = taskFor t1 d pd k"
      "t1 + 500 \<le> now" "map_of (recentDeletes s) k = Some info"
      "strictEquals (commitTs info) (getProp pd ''commitTs'')"
      by blast+
    have st: "step now (Timeout n) s
      = ([CdcEventsCounterInc (tableNameOf d pd) ''delete'',
          LoggerCDCEvent (fst (deleteEvent now d pd)) (snd (deleteEvent now d pd))],
         s\<lparr> timeouts := take n (timeouts s) @ drop (Suc n) (timeouts s),
            recentDeletes := AList.delete k (recentDeletes s) \<rparr>)"
      by (rule finalize_due [OF a'])
    have "length (timeouts (snd (step now (Timeout n) s))) < length (timeouts s)"
      using a'(1) by (auto simp: st)
    then show ?thesis
      by (simp add: st)
  qed
  from e1 st1 due early general
  show "counterIncs (fst (processCDCMessage t1 d c)) = []
            \<and> cdcEvents (fst (processCDCMessage t1 d c)) = []
            \<and> map_of (recentDeletes (snd (processCDCMessage t1 d c))) k = Some (infoFor t1 pd)
            \<and> timeouts (snd (processCDCMessage t1 d c)) = timeouts c @ [taskFor t1 d pd k]
            \<and> (t1 + 500 \<le> t2 \<longrightarrow>
                  counterIncs (fst (run [(t1, Deliver d), (t2, Timeout (length (timeouts c))),
                                         (t3, Interval)] c)) = [(tableNameOf d pd, ''delete'')]
                \<and> cdcEvents (fst (run [(t1, Deliver d), (t2, Timeout (length (timeouts c))),
                                       (t3, Interval)] c)) = [deleteEvent t2 d pd]
                \<and> map_of (recentDeletes (snd (run [(t1, Deliver d),
                                                    (t2, Timeout (length (timeouts c))),
                                                    (t3, Interval)] c))) k = None)
            \<and> (t2 < t1 + 500 \<longrightarrow>
                  run [(t1, Deliver d), (t2, Timeout (length (timeouts c)))] c
                    = run [(t1, Deliver d)] c)
            \<and> (\<forall>s n now info now'.
                  n < length (timeouts s) \<and> timeouts s ! n = taskFor t1 d pd k \<and> t1 + 500 \<le> now
                  \<and> map_of (recentDeletes s) k = Some info
                  \<and> strictEquals (commitTs info) (getProp pd ''commitTs'')
                \<longrightarrow> fst (step now (Timeout n) s)
                      = [CdcEventsCounterInc (tableNameOf d pd) ''delete'',
                         LoggerCDCEvent (fst (deleteEvent now d pd)) (snd (deleteEvent now d pd))]
                  \<and> map_of (recentDeletes (snd (step now (Timeout n) s))) k = None
                  \<and> length (timeouts (snd (step now (Timeout n) s))) < length (timeouts s)
                  \<and> fst (step now' Interval (snd (step now (Timeout n) s))) = [])"
    by blast
qed

text \<open>
  The theorem at the DELETE of record 7, its timeout at 500 and a sweep at 30000; at a
  timeout tried at 499; and at a DELETE whose table has an own property \<^verbatim>\<open>toString\<close>.
\<close>

theorem unmatched_delete_is_finalized_once_witness:
  "extractableDelete deleteExample deletePayload
   \<and> deleteKeyOf (tableNameOf deleteExample deletePayload)
        (extractRecordId (getProp deletePayload ''old'')) = Some ''users_7''
   \<and> (0::int) + 500 \<le> 500
   \<and> counterIncs (fst (run [(0, Deliver deleteExample),
                             (500, Timeout (length (timeouts (constructor 0)))),
                             (30000, Interval)] (constructor 0)))
       = [(JStr ''users'', ''delete'')]
   \<and> cdcEvents (fst (run [(0, Deliver deleteExample),
                           (500, Timeout (length (timeouts (constructor 0)))),
                           (30000, Interval)] (constructor 0)))
       = [(500, [(''table_name'', JStr ''users''),
                 (''operation_type'', JStr ''DELETE''),
                 (''data'', deletePayload),
                 (''offset'', JNum 1),
                 (''key'', JObj 10 [(''tbl'', JStr ''users''), (''rid'', JStr ''7'')])])]
   \<and> (499::int) < 0 + 500
   \<and> run [(0, Deliver deleteExample), (499, Timeout (length (timeouts (constructor 0))))]
        (constructor 0)
       = run [(0, Deliver deleteExample)] (constructor 0)
   \<and> (0::nat) < length (timeouts (snd (processCDCMessage 0 deleteExample (constructor 0))))
   \<and> timeouts (snd (processCDCMessage 0 deleteExample (constructor 0))) ! 0
       = taskFor 0 deleteExample deletePayload ''users_7''
   \<and> map_of (recentDeletes (snd (processCDCMessage 0 deleteExample (constructor 0))))
        ''users_7'' = Some (infoFor 0 deletePayload)
   \<and> strictEquals (commitTs (infoFor 0 deletePayload)) (getProp deletePayload ''commitTs'')
   \<and> counterIncs (fst (step 500 (Timeout 0)
                         (snd (processCDCMessage 0 deleteExample (constructor 0)))))
       = [(JStr ''users'', ''delete'')]
   \<and> extractableDelete shadowedDeleteExample shadowedDeletePayload
   \<and> deleteKeyOf (tableNameOf shadowedDeleteExample shadowedDeletePayload)
        (extractRecordId (getProp shadowedDeletePayload ''old'')) = None
   \<and> processCDCMessage 0 shadowedDeleteExample (constructor 0) = (errorProcessing, constructor 0)"
proof -
  have h: "extractableDelete deleteExample deletePayload"
    by (simp add: extractableDelete_def deleteExample_def deletePayload_def parseValue_def
          isSimpleProtocol_def extractRecordId_def)
  have k: "deleteKeyOf (tableNameOf deleteExample deletePayload)
             (extractRecordId (getProp deletePayload ''old'')) = Some ''users_7''"
    by (simp add: deleteExample_def deletePayload_def usersKey_def tableNameOf_def
          keyTableName_def parseKey_def js_or_def extractRecordId_def deleteKeyOf_def
          numberToString_def)
  have h': "extractableDelete shadowedDeleteExample shadowedDeletePayload"
    by (simp add: extractableDelete_def shadowedDeleteExample_def shadowedDeletePayload_def
          parseValue_def isSimpleProtocol_def extractRecordId_def)
  have k': "deleteKeyOf (tableNameOf shadowedDeleteExample shadowedDeletePayload)
             (extractRecordId (getProp shadowedDeletePayload ''old'')) = None"
    by (simp add: shadowedDeleteExample_def shadowedDeletePayload_def usersKey_def
          tableNameOf_def keyTableName_def parseKey_def js_or_def extractRecordId_def
          deleteKeyOf_def)
  have t: "tableNameOf deleteExample deletePayload = JStr ''users''"
    "messageKeyOf deleteExample = JObj 10 [(''tbl'', JStr ''users''), (''rid'', JStr ''7'')]"
    "m_offset deleteExample = 1"
    by (simp_all add: deleteExample_def deletePayload_def usersKey_def
          tableNameOf_def keyTableName_def messageKeyOf_def parseKey_def js_or_def)
  note main = unmatched_delete_is_finalized_once
      [OF h, of 0 "constructor 0" "''users_7''" 500 30000]
  note early = unmatched_delete_is_finalized_once
      [OF h, of 0 "constructor 0" "''users_7''" 499 30000]
  note thrown = unmatched_delete_is_finalized_once
      [OF h', of 0 "constructor 0" "''users_7''" 500 30000]
  from thrown k'
  have th: "processCDCMessage 0 shadowedDeleteExample (constructor 0)
              = (errorProcessing, constructor 0)"
    by blast
  from early k
  have ea: "run [(0, Deliver deleteExample), (499, Timeout (length (timeouts (constructor 0))))]
              (constructor 0)
            = run [(0, Deliver deleteExample)] (constructor 0)"
    by simp
  from main k
  have s0: "map_of (recentDeletes (snd (processCDCMessage 0 deleteExample (constructor 0))))
              ''users_7'' = Some (infoFor 0 deletePayload)"
    "timeouts (snd (processCDCMessage 0 deleteExample (constructor 0)))
       = timeouts (constructor 0) @ [taskFor 0 deleteExample deletePayload ''users_7'']"
    by simp_all
  have s1: "(0::nat) < length (timeouts (snd (processCDCMessage 0 deleteExample (constructor 0))))"
    "timeouts (snd (processCDCMessage 0 deleteExample (constructor 0))) ! 0
       = taskFor 0 deleteExample deletePayload ''users_7''"
    "strictEquals (commitTs (infoFor 0 deletePayload)) (getProp deletePayload ''commitTs'')"
    using s0 by (simp_all add: constructor_def infoFor_def)
  from main k
  have run: "counterIncs (fst (run [(0, Deliver deleteExample),
                             (500, Timeout (length (timeouts (constructor 0)))),
                             (30000, Interval)] (constructor 0)))
       = [(tableNameOf deleteExample deletePayload, ''delete'')]"
    "cdcEvents (fst (run [(0, Deliver deleteExample),
                           (500, Timeout (length (timeouts (constructor 0)))),
                           (30000, Interval)] (constructor 0)))
       = [deleteEvent 500 deleteExample deletePayload]"
    by simp_all
  from main k
  have gen: "\<forall>s n now info now'.
                  n < length (timeouts s)
                  \<and> timeouts s ! n = taskFor 0 deleteExample deletePayload ''users_7''
                  \<and> 0 + 500 \<le> now
                  \<and> map_of (recentDeletes s) ''users_7'' = Some info
                  \<and> strictEquals (commitTs info) (getProp deletePayload ''commitTs'')
                \<longrightarrow> fst (step now (Timeout n) s)
                      = [CdcEventsCounterInc (tableNameOf deleteExample deletePayload) ''delete'',
                         LoggerCDCEvent (fst (deleteEvent now deleteExample deletePayload))
                           (snd (deleteEvent now deleteExample deletePayload))]"
    by blast
  from gen [rule_format, of 0 "snd (processCDCMessage 0 deleteExample (constructor 0))" 500
              "infoFor 0 deletePayload"] s0(1) s1
  have g: "counterIncs (fst (step 500 (Timeout 0)
                         (snd (processCDCMessage 0 deleteExample (constructor 0)))))
       = [(JStr ''users'', ''delete'')]"
    by (simp add: t)
  show ?thesis
    using h k h' k' th ea s0(1) s1 run g by (simp add: t deleteEvent_def)
qed




lemma emissions_append [simp]: "emissions (xs @ ys) = emissions xs + emissions ys"
  by (simp add: emissions_def)

lemma registrations_append [simp]: "registrations (xs @ ys) = registrations xs + registrations ys"
  by (simp add: registrations_def)

lemma emissions_Nil [simp]: "emissions [] = 0"
  by (simp add: emissions_def)












text \<open>The keys stay distinct, as those of a \<^verbatim>\<open>Map\<close> are.\<close>

lemma step_distinct:
  assumes "distinct (map fst (recentDeletes c))"
  shows "distinct (map fst (recentDeletes (snd (step now ev c))))"
proof (cases ev)
  case (Deliver message)
  from processCDCMessage_store [of now message c] assms show ?thesis
    by (auto simp: step_def Deliver AList.distinct_update AList.distinct_delete)
next
  case (Timeout n)
  show ?thesis
  proof (cases "n < length (timeouts c) \<and> t_due (timeouts c ! n) \<le> now")
    case True
    let ?c = "c\<lparr> timeouts := take n (timeouts c) @ drop (Suc n) (timeouts c) \<rparr>"
    from finalize_store [of now "timeouts c ! n" ?c] assms True show ?thesis
      by (auto simp: step_def Timeout AList.distinct_delete)
  next
    case False
    with assms show ?thesis by (auto simp: step_def Timeout)
  qed
next
  case Interval
  with assms show ?thesis
    by (auto simp: step_def sweep_def sweepEntries_filter distinct_map_filter)
qed

lemma run_distinct:
  "distinct (map fst (recentDeletes c)) \<Longrightarrow> distinct (map fst (recentDeletes (snd (run evs c))))"
proof (induction evs arbitrary: c)
  case Nil
  then show ?case by simp
next
  case (Cons e evs)
  obtain now ev where e: "e = (now, ev)" by (cases e)
  from Cons.IH [OF step_distinct [OF Cons.prems, of now ev]] show ?case
    by (simp only: e snd_run_Cons)
qed

lemma reachable_distinct: "distinct (map fst (recentDeletes (snd (run evs (constructor t0)))))"
  by (rule run_distinct) (simp add: constructor_def)








end
